theory Spec2Isabelle
  imports Main "HOL-Library.Word"
begin

section \<open>Data model of package errors\<close>

text \<open>
  The package \<^verbatim>\<open>errors\<close> (\<^verbatim>\<open>src/errors/errors.go\<close>): a structured error with its
  constructors, its JSON text form and \<^verbatim>\<open>Parse\<close>, the comparison \<^verbatim>\<open>Is\<close>, the wrapping
  functions, the accessors and the builder. The functions of the Go standard library
  that the package calls (\<^verbatim>\<open>fmt.Sprintf\<close>, \<^verbatim>\<open>http.StatusText\<close>, \<^verbatim>\<open>json.Marshal\<close>,
  \<^verbatim>\<open>json.Unmarshal\<close> and what these rest on) are modelled as far as the package uses
  them, each in a section of its own.

  Go strings are byte sequences; a \<^typ>\<open>string\<close> is a list of 8-bit characters, so the two
  coincide. The struct \<^verbatim>\<open>Error\<close> of \<^verbatim>\<open>errors.go\<close> has the fields \<^verbatim>\<open>Id\<close>,
  \<^verbatim>\<open>Code\<close> (an \<^verbatim>\<open>int32\<close>), \<^verbatim>\<open>Detail\<close> and \<^verbatim>\<open>Status\<close>. The field \<^verbatim>\<open>Id\<close> is
  called \<open>Id_fld\<close> here, since \<open>Id\<close> is the identity relation of HOL.
\<close>

type_synonym int32 = "32 word"

record Error =
  Id_fld :: string
  Code :: int32
  Detail :: string
  Status :: string

text \<open>
  Every \<^verbatim>\<open>Error\<close> of the package lives behind a pointer (\<^verbatim>\<open>&Error{...}\<close>,
  \<^verbatim>\<open>new(Error)\<close>). The heap is the list of the cells allocated so far; an address is an
  index into it and allocation appends a cell.
\<close>

type_synonym addr = nat
type_synonym heap = "Error list"

definition alloc :: "heap \<Rightarrow> Error \<Rightarrow> heap \<times> addr" where
  "alloc h e = (h @ [e], length h)"

text \<open>
  A value of the interface type \<^verbatim>\<open>error\<close> is the nil interface, a \<^verbatim>\<open>*Error\<close> (which may
  itself be the nil pointer: \<open>ErrorPtr None\<close>), or a value of some other type, of which the
  package only ever uses the dynamic type's name and the result of its \<^verbatim>\<open>Error()\<close> method.
\<close>

datatype error = Nil | ErrorPtr "addr option" | Other string string

text \<open>
  Reading a field through a \<^verbatim>\<open>*Error\<close>. Dereferencing the nil pointer panics in Go; the
  panic is the value \<open>None\<close>. An address beyond the heap cannot be built in Go and is
  treated alike.
\<close>

definition deref :: "heap \<Rightarrow> addr option \<Rightarrow> Error option" where
  "deref h p = (case p of None \<Rightarrow> None
                | Some a \<Rightarrow> if a < length h then Some (h ! a) else None)"

section \<open>Standard library: status texts, decimal numbers, formatting\<close>

text \<open>The table of \<^verbatim>\<open>net/http.StatusText\<close>; a code that is not in it has the text \<open>''''\<close>.\<close>

definition status_table :: "(int \<times> string) list" where
  "status_table =
   [(100, ''Continue''), (101, ''Switching Protocols''), (102, ''Processing''),
    (103, ''Early Hints''),
    (200, ''OK''), (201, ''Created''), (202, ''Accepted''),
    (203, ''Non-Authoritative Information''), (204, ''No Content''),
    (205, ''Reset Content''), (206, ''Partial Content''), (207, ''Multi-Status''),
    (208, ''Already Reported''), (226, ''IM Used''),
    (300, ''Multiple Choices''), (301, ''Moved Permanently''), (302, ''Found''),
    (303, ''See Other''), (304, ''Not Modified''), (305, ''Use Proxy''),
    (307, ''Temporary Redirect''), (308, ''Permanent Redirect''),
    (400, ''Bad Request''), (401, ''Unauthorized''), (402, ''Payment Required''),
    (403, ''Forbidden''), (404, ''Not Found''), (405, ''Method Not Allowed''),
    (406, ''Not Acceptable''), (407, ''Proxy Authentication Required''),
    (408, ''Request Timeout''), (409, ''Conflict''), (410, ''Gone''),
    (411, ''Length Required''), (412, ''Precondition Failed''),
    (413, ''Request Entity Too Large''), (414, ''Request URI Too Long''),
    (415, ''Unsupported Media Type''), (416, ''Requested Range Not Satisfiable''),
    (417, ''Expectation Failed''), (418, ''I'' @ [CHR 0x27] @ ''m a teapot''),
    (421, ''Misdirected Request''), (422, ''Unprocessable Entity''), (423, ''Locked''),
    (424, ''Failed Dependency''), (425, ''Too Early''), (426, ''Upgrade Required''),
    (428, ''Precondition Required''), (429, ''Too Many Requests''),
    (431, ''Request Header Fields Too Large''),
    (451, ''Unavailable For Legal Reasons''),
    (500, ''Internal Server Error''), (501, ''Not Implemented''), (502, ''Bad Gateway''),
    (503, ''Service Unavailable''), (504, ''Gateway Timeout''),
    (505, ''HTTP Version Not Supported''), (506, ''Variant Also Negotiates''),
    (507, ''Insufficient Storage''), (508, ''Loop Detected''), (510, ''Not Extended''),
    (511, ''Network Authentication Required'')]"

definition StatusText :: "int \<Rightarrow> string" where
  "StatusText code = (case map_of status_table code of Some s \<Rightarrow> s | None \<Rightarrow> [])"

text \<open>Decimal digits of a number, as \<^verbatim>\<open>strconv.FormatInt(n, 10)\<close> writes them.\<close>

definition digit_char :: "nat \<Rightarrow> char" where
  "digit_char d = char_of (48 + d)"

function nat_digits :: "nat \<Rightarrow> string" where
  "nat_digits n = (if n < 10 then [digit_char n]
                   else nat_digits (n div 10) @ [digit_char (n mod 10)])"
  by pat_completeness auto
termination
  by (relation "measure id") auto

definition FormatInt :: "int \<Rightarrow> string" where
  "FormatInt i = (if i < 0 then CHR ''-'' # nat_digits (nat (- i)) else nat_digits (nat i))"

text \<open>
  The operands of \<^verbatim>\<open>fmt.Sprintf\<close> are interface values. The model knows the untyped nil, a
  \<^verbatim>\<open>string\<close>, an \<^verbatim>\<open>int\<close>, and a value of an error type (the name of its dynamic type and
  the text its \<^verbatim>\<open>Error()\<close> method returns).
\<close>

datatype iface = INil | IString string | IInt int | IError string string

definition type_name :: "iface \<Rightarrow> string" where
  "type_name x = (case x of INil \<Rightarrow> ''<nil>'' | IString s \<Rightarrow> ''string''
                  | IInt n \<Rightarrow> ''int'' | IError t s \<Rightarrow> t)"

text \<open>\<^verbatim>\<open>printArg(arg, 'v')\<close>: the default format of an operand.\<close>

definition print_v :: "iface \<Rightarrow> string" where
  "print_v x = (case x of INil \<Rightarrow> ''<nil>'' | IString s \<Rightarrow> s
                | IInt n \<Rightarrow> FormatInt n | IError t s \<Rightarrow> s)"

text \<open>\<^verbatim>\<open>badVerb\<close>: the verb does not fit the operand.\<close>

definition badVerb :: "char \<Rightarrow> iface \<Rightarrow> string" where
  "badVerb verb x =
     ''%!'' @ [verb] @ ''('' @
     (case x of INil \<Rightarrow> ''<nil>'' | _ \<Rightarrow> type_name x @ ''='' @ print_v x) @ '')''"

text \<open>
  \<^verbatim>\<open>printArg\<close> for the two verbs the package uses: \<^verbatim>\<open>%v\<close> fits every operand,
  \<^verbatim>\<open>%s\<close> fits strings and errors (whose \<^verbatim>\<open>Error()\<close> text is printed), and neither nil
  nor an int.
\<close>

definition printArg :: "iface \<Rightarrow> char \<Rightarrow> string" where
  "printArg x verb =
     (case x of
        INil \<Rightarrow> if verb = CHR ''v'' then ''<nil>'' else badVerb verb x
      | IString s \<Rightarrow> if verb = CHR ''v'' \<or> verb = CHR ''s'' then s else badVerb verb x
      | IInt n \<Rightarrow> if verb = CHR ''v'' then FormatInt n else badVerb verb x
      | IError t s \<Rightarrow> if verb = CHR ''v'' \<or> verb = CHR ''s'' then s else badVerb verb x)"

text \<open>The operands left over when the format is used up: \<^verbatim>\<open>%!(EXTRA type=value, ...)\<close>.\<close>

fun extra_args :: "iface list \<Rightarrow> string" where
  "extra_args [] = []"
| "extra_args [x] = (case x of INil \<Rightarrow> ''<nil>'' | _ \<Rightarrow> type_name x @ ''='' @ print_v x)"
| "extra_args (x # y # ys) =
     (case x of INil \<Rightarrow> ''<nil>'' | _ \<Rightarrow> type_name x @ ''='' @ print_v x) @ '', '' @
     extra_args (y # ys)"

definition extra :: "iface list \<Rightarrow> string" where
  "extra a = (if a = [] then [] else ''%!(EXTRA '' @ extra_args a @ '')'')"

text \<open>
  The loop of \<^verbatim>\<open>fmt.(*pp).doPrintf\<close> over the format: text up to the next \<^verbatim>\<open>%\<close> is
  copied, \<^verbatim>\<open>%%\<close> is a percent sign, a verb takes the next operand (\<^verbatim>\<open>%!v(MISSING)\<close> when
  none is left), a \<^verbatim>\<open>%\<close> at the very end is \<^verbatim>\<open>%!(NOVERB)\<close>, and after the loop the
  operands left over are reported. The formats of the package are \<^verbatim>\<open>"%s"\<close>,
  \<^verbatim>\<open>"%s: %s"\<close> and \<^verbatim>\<open>"%s: %v"\<close>; flags, widths, precisions, argument indexes and the other
  verbs of \<^verbatim>\<open>fmt\<close> do not occur in them and are not part of the model.
\<close>

fun doPrintf :: "string \<Rightarrow> iface list \<Rightarrow> string" where
  "doPrintf [] a = extra a"
| "doPrintf (c # fs) a =
     (if c \<noteq> CHR ''%'' then c # doPrintf fs a
      else (case fs of
              [] \<Rightarrow> ''%!(NOVERB)'' @ extra a
            | verb # fs' \<Rightarrow>
                if verb = CHR ''%'' then CHR ''%'' # doPrintf fs' a
                else (case a of
                        [] \<Rightarrow> ''%!'' @ [verb] @ ''(MISSING)'' @ doPrintf fs' []
                      | x # a' \<Rightarrow> printArg x verb @ doPrintf fs' a')))"

definition Sprintf :: "string \<Rightarrow> iface list \<Rightarrow> string" where
  "Sprintf format a = doPrintf format a"

section \<open>Standard library: UTF-8\<close>

text \<open>
  \<^verbatim>\<open>unicode/utf8\<close>. A rune is a natural number here; the masks and shifts of the Go code
  are written as \<open>mod\<close>, \<open>div\<close> and multiplication by the matching power of two (the bit
  ranges that Go joins with \<^verbatim>\<open>|\<close> are disjoint). \<open>DecodeRune\<close> returns the rune and the
  number of bytes it takes, and \<open>(RuneError, 1)\<close> on a byte that starts no well-formed
  sequence.
\<close>

definition RuneError :: nat where
  "RuneError = 0xFFFD"

definition DecodeRune :: "string \<Rightarrow> nat \<times> nat" where
  "DecodeRune s =
     (case s of
        [] \<Rightarrow> (RuneError, 0)
      | c0 # t \<Rightarrow>
          let s0 = (of_char c0 :: nat) in
          if s0 < 0x80 then (s0, 1)
          else if s0 < 0xC2 \<or> 0xF4 < s0 then (RuneError, 1)
          else
            let sz = (if s0 < 0xE0 then 2 else if s0 < 0xF0 then 3 else 4 :: nat);
                lo = (if s0 = 0xE0 then 0xA0 else if s0 = 0xF0 then 0x90 else 0x80 :: nat);
                hi = (if s0 = 0xED then 0x9F else if s0 = 0xF4 then 0x8F else 0xBF :: nat)
            in
            if length s < sz then (RuneError, 1)
            else
              let s1 = (of_char (s ! 1) :: nat) in
              if s1 < lo \<or> hi < s1 then (RuneError, 1)
              else if sz \<le> 2 then ((s0 mod 32) * 64 + s1 mod 64, 2)
              else
                let s2 = (of_char (s ! 2) :: nat) in
                if s2 < 0x80 \<or> 0xBF < s2 then (RuneError, 1)
                else if sz \<le> 3 then ((s0 mod 16) * 4096 + (s1 mod 64) * 64 + s2 mod 64, 3)
                else
                  let s3 = (of_char (s ! 3) :: nat) in
                  if s3 < 0x80 \<or> 0xBF < s3 then (RuneError, 1)
                  else ((s0 mod 8) * 262144 + (s1 mod 64) * 4096 + (s2 mod 64) * 64
                        + s3 mod 64, 4))"

text \<open>\<^verbatim>\<open>utf8.AppendRune\<close>: surrogates and runes beyond U+10FFFF are written as U+FFFD.\<close>

definition EncodeRune :: "nat \<Rightarrow> string" where
  "EncodeRune r =
     (if r \<le> 0x7F then [char_of r]
      else if r \<le> 0x7FF then [char_of (0xC0 + r div 64), char_of (0x80 + r mod 64)]
      else if 0x10FFFF < r \<or> (0xD800 \<le> r \<and> r \<le> 0xDFFF) then [CHR 0xEF, CHR 0xBF, CHR 0xBD]
      else if r \<le> 0xFFFF then
        [char_of (0xE0 + r div 4096), char_of (0x80 + (r div 64) mod 64),
         char_of (0x80 + r mod 64)]
      else
        [char_of (0xF0 + r div 262144), char_of (0x80 + (r div 4096) mod 64),
         char_of (0x80 + (r div 64) mod 64), char_of (0x80 + r mod 64)])"

text \<open>\<^verbatim>\<open>utf8.ValidString\<close>: every byte belongs to a well-formed sequence.\<close>

fun ValidString :: "string \<Rightarrow> bool" where
  "ValidString [] = True"
| "ValidString (c # cs) =
     (case DecodeRune (c # cs) of
        (r, n) \<Rightarrow> if r = RuneError \<and> n = 1 then False
                     else ValidString (drop (n - 1) cs))"

section \<open>Standard library: encoding an Error as JSON\<close>

abbreviation dquote :: char where
  "dquote \<equiv> CHR 0x22"

abbreviation bslash :: char where
  "bslash \<equiv> CHR 0x5C"

definition hex_digit :: "nat \<Rightarrow> char" where
  "hex_digit n = ''0123456789abcdef'' ! n"

text \<open>
  \<^verbatim>\<open>htmlSafeSet\<close> of \<^verbatim>\<open>encoding/json\<close>: the ASCII bytes that \<^verbatim>\<open>json.Marshal\<close> copies
  as they are, which is every byte from the space on but the double quote, the
  backslash, \<^verbatim>\<open>&\<close>, \<^verbatim>\<open><\<close> and \<^verbatim>\<open>>\<close>.
\<close>

definition htmlSafe :: "char \<Rightarrow> bool" where
  "htmlSafe c = (0x20 \<le> (of_char c :: nat) \<and> (of_char c :: nat) < 0x80 \<and> c \<noteq> dquote \<and>
                 c \<noteq> CHR ''&'' \<and> c \<noteq> CHR ''<'' \<and> c \<noteq> CHR ''>'' \<and> c \<noteq> bslash)"

text \<open>The escape of an ASCII byte that is not in \<^verbatim>\<open>htmlSafeSet\<close>.\<close>

definition escape_ascii :: "char \<Rightarrow> string" where
  "escape_ascii c =
     (if c = bslash \<or> c = dquote then [bslash, c]
      else if c = CHR 0x08 then [bslash, CHR ''b'']
      else if c = CHR 0x0C then [bslash, CHR ''f'']
      else if c = CHR 0x0A then [bslash, CHR ''n'']
      else if c = CHR 0x0D then [bslash, CHR ''r'']
      else if c = CHR 0x09 then [bslash, CHR ''t'']
      else [bslash, CHR ''u'', CHR ''0'', CHR ''0'', hex_digit (of_char c div 16),
            hex_digit (of_char c mod 16)])"

text \<open>
  The loop of \<^verbatim>\<open>appendString\<close> (with \<^verbatim>\<open>escapeHTML\<close> set, as \<^verbatim>\<open>json.Marshal\<close> has it):
  a byte that starts no well-formed UTF-8 sequence is written as the escape of U+FFFD, U+2028 and
  U+2029 are written as escapes, every other rune is copied. After a rune of \<open>n\<close>
  bytes the loop goes on behind it; \<open>n\<close> is at least 1 on a non-empty input.
  (Backspace and form feed are written \<^verbatim>\<open>\b\<close> and \<^verbatim>\<open>\f\<close>, as Go does from release
  1.22 on; earlier releases write them as \<^verbatim>\<open>\u0008\<close> and \<^verbatim>\<open>\u000c\<close>, which the
  decoder reads as the same bytes.)
\<close>

fun appendString_loop :: "string \<Rightarrow> string" where
  "appendString_loop [] = []"
| "appendString_loop (c # cs) =
     (if (of_char c :: nat) < 0x80 then
        (if htmlSafe c then [c] else escape_ascii c) @ appendString_loop cs
      else
        (case DecodeRune (c # cs) of
           (r, n) \<Rightarrow>
             if r = RuneError \<and> n = 1 then
               (bslash # ''ufffd'') @ appendString_loop cs
             else if r = 0x2028 \<or> r = 0x2029 then
               (bslash # ''u202'') @ [hex_digit (r mod 16)]
               @ appendString_loop (drop (n - 1) cs)
             else take n (c # cs) @ appendString_loop (drop (n - 1) cs)))"

definition appendString :: "string \<Rightarrow> string" where
  "appendString src = dquote # appendString_loop src @ [dquote]"

text \<open>
  \<^verbatim>\<open>json.Marshal\<close> of a non-nil \<^verbatim>\<open>*Error\<close>: the four fields in the order of the struct,
  under the names of their tags.
\<close>

definition Marshal :: "Error \<Rightarrow> string" where
  \<open>Marshal e =
     ''{"id":'' @ appendString (Id_fld e) @
     '',"code":'' @ FormatInt (sint (Code e)) @
     '',"detail":'' @ appendString (Detail e) @
     '',"status":'' @ appendString (Status e) @ ''}''\<close>

text \<open>
  The method \<^verbatim>\<open>Error()\<close> of an \<^verbatim>\<open>error\<close>. On a \<^verbatim>\<open>*Error\<close> it is \<^verbatim>\<open>json.Marshal\<close> of the
  pointer (whose error is dropped; there is none for this struct), and the nil pointer
  is encoded as \<^verbatim>\<open>null\<close>. Calling it on the nil interface panics.
\<close>

definition Error_method :: "heap \<Rightarrow> error \<Rightarrow> string option" where
  "Error_method h err =
     (case err of
        Nil \<Rightarrow> None
      | ErrorPtr p \<Rightarrow>
          (case p of None \<Rightarrow> Some ''null''
           | Some a \<Rightarrow> if a < length h then Some (Marshal (h ! a)) else None)
      | Other t s \<Rightarrow> Some s)"

section \<open>Standard library: decoding JSON into an Error\<close>

text \<open>
  \<^verbatim>\<open>json.Unmarshal\<close> first checks the syntax of the whole input (\<^verbatim>\<open>checkValid\<close>) and
  touches the target only when the input is one JSON value. The model does the check by
  parsing the input into a tree; the strings and numbers of the tree are the literals as
  they stand in the input (a string without its quotes), which is what the decoder of Go
  reads them from.
\<close>

datatype json =
    JNull
  | JBool bool
  | JNumber string
  | JString string
  | JArray "json list"
  | JObject "(string \<times> json) list"

definition isSpace :: "char \<Rightarrow> bool" where
  "isSpace c = (c = CHR '' '' \<or> c = CHR 0x09 \<or> c = CHR 0x0D \<or> c = CHR 0x0A)"

definition isDigit :: "char \<Rightarrow> bool" where
  "isDigit c = (48 \<le> (of_char c :: nat) \<and> (of_char c :: nat) \<le> 57)"

definition hexval :: "char \<Rightarrow> nat option" where
  "hexval c =
     (let b = (of_char c :: nat) in
      if 48 \<le> b \<and> b \<le> 57 then Some (b - 48)
      else if 97 \<le> b \<and> b \<le> 102 then Some (b - 97 + 10)
      else if 65 \<le> b \<and> b \<le> 70 then Some (b - 65 + 10)
      else None)"

definition skip_ws :: "string \<Rightarrow> string" where
  "skip_ws s = dropWhile isSpace s"

text \<open>
  A string literal, read from behind its opening quote up to the closing one: the
  literal's bytes and the rest of the input. A control character, an escape that JSON
  does not have, and the end of the input inside the literal are syntax errors.
\<close>

fun scan_string :: "string \<Rightarrow> (string \<times> string) option" where
  "scan_string [] = None"
| "scan_string (c # cs) =
     (if c = dquote then Some ([], cs)
      else if c = bslash then
        (case cs of
           [] \<Rightarrow> None
         | e # cs' \<Rightarrow>
             if e = CHR ''b'' \<or> e = CHR ''f'' \<or> e = CHR ''n'' \<or> e = CHR ''r'' \<or> e = CHR ''t''
                \<or> e = bslash \<or> e = CHR ''/'' \<or> e = dquote then
               (case scan_string cs' of None \<Rightarrow> None
                | Some (raw, rest) \<Rightarrow> Some (c # e # raw, rest))
             else if e = CHR ''u'' then
               (case cs' of
                  h1 # h2 # h3 # h4 # cs'' \<Rightarrow>
                    if hexval h1 = None \<or> hexval h2 = None \<or> hexval h3 = None
                       \<or> hexval h4 = None then None
                    else (case scan_string cs'' of None \<Rightarrow> None
                          | Some (raw, rest) \<Rightarrow> Some (c # e # h1 # h2 # h3 # h4 # raw, rest))
                | _ \<Rightarrow> None)
             else None)
      else if (of_char c :: nat) < 0x20 then None
      else (case scan_string cs of None \<Rightarrow> None
            | Some (raw, rest) \<Rightarrow> Some (c # raw, rest)))"

text \<open>
  A number literal: an optional minus sign, \<open>0\<close> or a digit from 1 to 9 followed by
  digits, an optional fraction and an optional exponent.
\<close>

definition scan_int_part :: "string \<Rightarrow> (string \<times> string) option" where
  "scan_int_part s =
     (case s of
        [] \<Rightarrow> None
      | c # cs \<Rightarrow>
          if c = CHR ''0'' then Some ([c], cs)
          else if isDigit c then Some (c # takeWhile isDigit cs, dropWhile isDigit cs)
          else None)"

definition scan_frac :: "string \<Rightarrow> (string \<times> string) option" where
  "scan_frac s =
     (case s of
        [] \<Rightarrow> Some ([], s)
      | c # cs \<Rightarrow>
          if c = CHR ''.'' then
            (if takeWhile isDigit cs = [] then None
             else Some (c # takeWhile isDigit cs, dropWhile isDigit cs))
          else Some ([], s))"

definition scan_exp :: "string \<Rightarrow> (string \<times> string) option" where
  "scan_exp s =
     (case s of
        [] \<Rightarrow> Some ([], s)
      | c # cs \<Rightarrow>
          if c = CHR ''e'' \<or> c = CHR ''E'' then
            (let (sg, ds) = (case cs of
                               [] \<Rightarrow> ([], cs)
                             | d # cs' \<Rightarrow> if d = CHR ''+'' \<or> d = CHR ''-'' then ([d], cs')
                                          else ([], cs))
             in if takeWhile isDigit ds = [] then None
                else Some (c # sg @ takeWhile isDigit ds, dropWhile isDigit ds))
          else Some ([], s))"

definition scan_number :: "string \<Rightarrow> (string \<times> string) option" where
  "scan_number s =
     (let (sg, s1) = (case s of [] \<Rightarrow> ([], s)
                      | c # cs \<Rightarrow> if c = CHR ''-'' then ([c], cs) else ([], s))
      in case scan_int_part s1 of
           None \<Rightarrow> None
         | Some (ip, s2) \<Rightarrow>
             (case scan_frac s2 of
                None \<Rightarrow> None
              | Some (fp, s3) \<Rightarrow>
                  (case scan_exp s3 of
                     None \<Rightarrow> None
                   | Some (ep, s4) \<Rightarrow> Some (sg @ ip @ fp @ ep, s4))))"

definition strip_prefix :: "string \<Rightarrow> string \<Rightarrow> string option" where
  "strip_prefix p s = (if take (length p) s = p then Some (drop (length p) s) else None)"

text \<open>
  The scanner of Go refuses an input nested deeper than \<^verbatim>\<open>maxNestingDepth\<close> objects and
  arrays.
\<close>

definition maxNestingDepth :: nat where
  "maxNestingDepth = 10000"

text \<open>
  One JSON value at the head of the input, inside \<open>d\<close> objects and arrays: the value
  and the rest of the input. \<open>parse_elems\<close> reads the elements of a non-empty array up
  to its closing bracket, \<open>parse_members\<close> the members of a non-empty object up to its
  closing brace. The comparisons of lengths before the two loops go round say that the
  input has become shorter, which it always has after a value (\<open>parse_elems_unfold\<close>
  and \<open>parse_members_unfold\<close> below).
\<close>

function parse_value :: "nat \<Rightarrow> string \<Rightarrow> (json \<times> string) option"
  and parse_elems :: "nat \<Rightarrow> string \<Rightarrow> (json list \<times> string) option"
  and parse_members :: "nat \<Rightarrow> string \<Rightarrow> ((string \<times> json) list \<times> string) option"
where
  "parse_value d s =
     (case s of
        [] \<Rightarrow> None
      | c # cs \<Rightarrow>
          if c = CHR ''{'' then
            (if maxNestingDepth \<le> d then None
             else (case skip_ws cs of
                     [] \<Rightarrow> None
                   | c1 # r1 \<Rightarrow>
                       if c1 = CHR ''}'' then Some (JObject [], r1)
                       else (case parse_members (Suc d) (skip_ws cs) of
                               None \<Rightarrow> None
                             | Some (ms, rest) \<Rightarrow> Some (JObject ms, rest))))
          else if c = CHR ''['' then
            (if maxNestingDepth \<le> d then None
             else (case skip_ws cs of
                     [] \<Rightarrow> None
                   | c1 # r1 \<Rightarrow>
                       if c1 = CHR '']'' then Some (JArray [], r1)
                       else (case parse_elems (Suc d) (skip_ws cs) of
                               None \<Rightarrow> None
                             | Some (vs, rest) \<Rightarrow> Some (JArray vs, rest))))
          else if c = dquote then
            (case scan_string cs of None \<Rightarrow> None
             | Some (raw, rest) \<Rightarrow> Some (JString raw, rest))
          else if c = CHR ''-'' \<or> isDigit c then
            (case scan_number s of None \<Rightarrow> None
             | Some (lit, rest) \<Rightarrow> Some (JNumber lit, rest))
          else if c = CHR ''t'' then
            (case strip_prefix ''true'' s of None \<Rightarrow> None
             | Some rest \<Rightarrow> Some (JBool True, rest))
          else if c = CHR ''f'' then
            (case strip_prefix ''false'' s of None \<Rightarrow> None
             | Some rest \<Rightarrow> Some (JBool False, rest))
          else if c = CHR ''n'' then
            (case strip_prefix ''null'' s of None \<Rightarrow> None
             | Some rest \<Rightarrow> Some (JNull, rest))
          else None)"
| "parse_elems d s =
     (case parse_value d s of
        None \<Rightarrow> None
      | Some (v, r) \<Rightarrow>
          (case skip_ws r of
             [] \<Rightarrow> None
           | c # r' \<Rightarrow>
               if c = CHR '']'' then Some ([v], r')
               else if c = CHR '','' then
                 (if length (skip_ws r') < length s then
                    (case parse_elems d (skip_ws r') of
                       None \<Rightarrow> None
                     | Some (vs, rest) \<Rightarrow> Some (v # vs, rest))
                  else None)
               else None))"
| "parse_members d s =
     (case s of
        [] \<Rightarrow> None
      | c # cs \<Rightarrow>
          if c = dquote then
            (case scan_string cs of
               None \<Rightarrow> None
             | Some (k, r) \<Rightarrow>
                 (case skip_ws r of
                    [] \<Rightarrow> None
                  | c1 # r1 \<Rightarrow>
                      if c1 = CHR '':'' then
                        (if length (skip_ws r1) < length s then
                           (case parse_value d (skip_ws r1) of
                              None \<Rightarrow> None
                            | Some (v, r2) \<Rightarrow>
                                (case skip_ws r2 of
                                   [] \<Rightarrow> None
                                 | c2 # r3 \<Rightarrow>
                                     if c2 = CHR ''}'' then Some ([(k, v)], r3)
                                     else if c2 = CHR '','' then
                                       (if length (skip_ws r3) < length s then
                                          (case parse_members d (skip_ws r3) of
                                             None \<Rightarrow> None
                                           | Some (ms, rest) \<Rightarrow> Some ((k, v) # ms, rest))
                                        else None)
                                     else None))
                         else None)
                      else None))
          else None)"
  by pat_completeness auto
termination
  apply (relation "measure (\<lambda>x. case x of
                   Inl (d, s) \<Rightarrow> 2 * length s
                 | Inr (Inl (d, s)) \<Rightarrow> 2 * length s + 1
                 | Inr (Inr (d, s)) \<Rightarrow> 2 * length s + 1)")
    apply (auto simp: skip_ws_def)
  subgoal for d cs c1 r1
    using length_dropWhile_le [of isSpace cs] by simp
  subgoal for d cs c1 r1
    using length_dropWhile_le [of isSpace cs] by simp
  done

text \<open>The whole input is one value between white space; otherwise a syntax error.\<close>

definition parse_document :: "string \<Rightarrow> json option" where
  "parse_document data =
     (case parse_value 0 (skip_ws data) of
        None \<Rightarrow> None
      | Some (v, rest) \<Rightarrow> if skip_ws rest = [] then Some v else None)"

text \<open>
  \<^verbatim>\<open>getu4\<close>: the number written by the four hexadecimal digits of a \<^verbatim>\<open>\uXXXX\<close> at the
  head of the input; \<open>None\<close> where Go returns \<open>-1\<close>.
\<close>

definition getu4 :: "string \<Rightarrow> nat option" where
  "getu4 s =
     (case s of
        b # u # h1 # h2 # h3 # h4 # rest \<Rightarrow>
          if b = bslash \<and> u = CHR ''u'' then
            (case (hexval h1, hexval h2, hexval h3, hexval h4) of
               (Some a1, Some a2, Some a3, Some a4) \<Rightarrow>
                 Some (((a1 * 16 + a2) * 16 + a3) * 16 + a4)
             | _ \<Rightarrow> None)
          else None
      | _ \<Rightarrow> None)"

text \<open>\<^verbatim>\<open>utf16.IsSurrogate\<close> and \<^verbatim>\<open>utf16.DecodeRune\<close> (U+FFFD when the pair is not one).\<close>

definition IsSurrogate :: "nat \<Rightarrow> bool" where
  "IsSurrogate r = (0xD800 \<le> r \<and> r < 0xE000)"

definition utf16_DecodeRune :: "nat \<Rightarrow> nat option \<Rightarrow> nat" where
  "utf16_DecodeRune r1 r2' =
     (case r2' of
        None \<Rightarrow> 0xFFFD
      | Some r2 \<Rightarrow>
          if 0xD800 \<le> r1 \<and> r1 < 0xDC00 \<and> 0xDC00 \<le> r2 \<and> r2 < 0xE000
          then (r1 - 0xD800) * 1024 + (r2 - 0xDC00) + 0x10000
          else 0xFFFD)"

text \<open>
  \<^verbatim>\<open>unquoteBytes\<close> on the bytes between the quotes. Its first loop runs over the bytes
  that need no work (no escape, no quote, no control character, well-formed UTF-8):
  \<open>plain_len\<close> is where it stops. Its second loop, from there on, resolves the escapes
  and writes every other rune anew, an ill-formed byte as U+FFFD. \<open>None\<close> is the result
  \<^verbatim>\<open>ok == false\<close>.
\<close>

fun plain_len :: "string \<Rightarrow> nat" where
  "plain_len [] = 0"
| "plain_len (c # cs) =
     (if c = bslash \<or> c = dquote \<or> (of_char c :: nat) < 0x20 then 0
      else if (of_char c :: nat) < 0x80 then 1 + plain_len cs
      else (case DecodeRune (c # cs) of
              (rr, n) \<Rightarrow> if rr = RuneError \<and> n = 1 then 0
                          else n + plain_len (drop (n - 1) cs)))"

fun unquote_loop :: "string \<Rightarrow> string option" where
  "unquote_loop [] = Some []"
| "unquote_loop (c # cs) =
     (if c = bslash then
        (case cs of
           [] \<Rightarrow> None
         | e # cs' \<Rightarrow>
             if e = dquote \<or> e = bslash \<or> e = CHR ''/'' \<or> e = CHR 0x27 then
               map_option ((#) e) (unquote_loop cs')
             else if e = CHR ''b'' then map_option ((#) (CHR 0x08)) (unquote_loop cs')
             else if e = CHR ''f'' then map_option ((#) (CHR 0x0C)) (unquote_loop cs')
             else if e = CHR ''n'' then map_option ((#) (CHR 0x0A)) (unquote_loop cs')
             else if e = CHR ''r'' then map_option ((#) (CHR 0x0D)) (unquote_loop cs')
             else if e = CHR ''t'' then map_option ((#) (CHR 0x09)) (unquote_loop cs')
             else if e = CHR ''u'' then
               (case getu4 (c # cs) of
                  None \<Rightarrow> None
                | Some rr \<Rightarrow>
                    if IsSurrogate rr then
                      (if utf16_DecodeRune rr (getu4 (drop 4 cs')) \<noteq> 0xFFFD then
                         map_option
                           ((@) (EncodeRune (utf16_DecodeRune rr (getu4 (drop 4 cs')))))
                           (unquote_loop (drop 10 cs'))
                       else map_option ((@) (EncodeRune 0xFFFD)) (unquote_loop (drop 4 cs')))
                    else map_option ((@) (EncodeRune rr)) (unquote_loop (drop 4 cs')))
             else None)
      else if c = dquote \<or> (of_char c :: nat) < 0x20 then None
      else if (of_char c :: nat) < 0x80 then map_option ((#) c) (unquote_loop cs)
      else (case DecodeRune (c # cs) of
              (rr, n) \<Rightarrow> map_option ((@) (EncodeRune rr)) (unquote_loop (drop (n - 1) cs))))"

definition unquote :: "string \<Rightarrow> string option" where
  "unquote s =
     (if plain_len s = length s then Some s
      else map_option ((@) (take (plain_len s) s)) (unquote_loop (drop (plain_len s) s)))"

text \<open>
  \<^verbatim>\<open>strconv.ParseInt(s, 10, 64)\<close>: an optional sign and decimal digits, within the range
  of an \<^verbatim>\<open>int64\<close>; \<open>None\<close> is an error.
\<close>

definition digits_val :: "string \<Rightarrow> nat" where
  "digits_val ds = foldl (\<lambda>acc c. acc * 10 + (of_char c - 48)) 0 ds"

definition ParseInt :: "string \<Rightarrow> int option" where
  "ParseInt s =
     (case s of
        [] \<Rightarrow> None
      | c # cs \<Rightarrow>
          let (neg, ds) = (if c = CHR ''+'' then (False, cs)
                           else if c = CHR ''-'' then (True, cs) else (False, s))
          in if ds = [] \<or> \<not> list_all isDigit ds then None
             else if neg then
               (if 2 ^ 63 < digits_val ds then None else Some (- int (digits_val ds)))
             else
               (if 2 ^ 63 \<le> digits_val ds then None else Some (int (digits_val ds))))"

text \<open>\<^verbatim>\<open>reflect.Value.OverflowInt\<close> for a field of kind \<^verbatim>\<open>int32\<close>.\<close>

definition OverflowInt32 :: "int \<Rightarrow> bool" where
  "OverflowInt32 x = (x < - (2 ^ 31) \<or> 2 ^ 31 \<le> x)"

text \<open>
  The fields of the struct under the names of their JSON tags. A key of the input
  selects the field whose name it is; failing that, the field whose name it is up to
  Unicode simple case folding (\<^verbatim>\<open>bytes.EqualFold\<close>). The names are lower-case ASCII
  letters, and a rune folds to such a letter when it is the letter, its capital, the
  Kelvin sign for \<open>k\<close> or the long s for \<open>s\<close>.
\<close>

datatype field = F_Id | F_Code | F_Detail | F_Status

definition json_fields :: "(string \<times> field) list" where
  "json_fields =
     [(''id'', F_Id), (''code'', F_Code), (''detail'', F_Detail), (''status'', F_Status)]"

definition fold_matches :: "char \<Rightarrow> nat \<Rightarrow> bool" where
  "fold_matches l r =
     (r = of_char l \<or> r + 32 = of_char l \<or> (l = CHR ''k'' \<and> r = 0x212A)
      \<or> (l = CHR ''s'' \<and> r = 0x17F))"

fun EqualFold_name :: "string \<Rightarrow> string \<Rightarrow> bool" where
  "EqualFold_name [] key = (key = [])"
| "EqualFold_name (l # ls) key =
     (case key of
        [] \<Rightarrow> False
      | c # cs \<Rightarrow>
          (case DecodeRune key of
             (r, n) \<Rightarrow> fold_matches l r \<and> EqualFold_name ls (drop (n - 1) cs)))"

definition find_field :: "string \<Rightarrow> field option" where
  "find_field key =
     (case map_of json_fields key of
        Some f \<Rightarrow> Some f
      | None \<Rightarrow> map_option snd (find (\<lambda>(name, f). EqualFold_name name key) json_fields))"

text \<open>
  Storing a JSON value into a field of kind string and into the field of kind
  \<^verbatim>\<open>int32\<close>: the new value of the field, and whether an \<^verbatim>\<open>UnmarshalTypeError\<close> was saved.
  \<^verbatim>\<open>null\<close> leaves the field as it is and is no error; a value of the wrong kind, and a
  number that is no integer of 32 bits, leave the field as it is and are an error.
\<close>

definition decode_string :: "json \<Rightarrow> string \<Rightarrow> string \<times> bool" where
  "decode_string v old =
     (case v of
        JNull \<Rightarrow> (old, False)
      | JString raw \<Rightarrow> (case unquote raw of Some s \<Rightarrow> (s, False) | None \<Rightarrow> (old, True))
      | _ \<Rightarrow> (old, True))"

definition decode_int32 :: "json \<Rightarrow> int32 \<Rightarrow> int32 \<times> bool" where
  "decode_int32 v old =
     (case v of
        JNull \<Rightarrow> (old, False)
      | JNumber lit \<Rightarrow>
          (case ParseInt lit of
             None \<Rightarrow> (old, True)
           | Some n \<Rightarrow> if OverflowInt32 n then (old, True) else (word_of_int n, False))
      | _ \<Rightarrow> (old, True))"

definition decode_field :: "field \<Rightarrow> json \<Rightarrow> Error \<Rightarrow> Error \<times> bool" where
  "decode_field f v e =
     (case f of
        F_Id \<Rightarrow> (let (x, bad) = decode_string v (Id_fld e) in (e\<lparr>Id_fld := x\<rparr>, bad))
      | F_Code \<Rightarrow> (let (x, bad) = decode_int32 v (Code e) in (e\<lparr>Code := x\<rparr>, bad))
      | F_Detail \<Rightarrow> (let (x, bad) = decode_string v (Detail e) in (e\<lparr>Detail := x\<rparr>, bad))
      | F_Status \<Rightarrow> (let (x, bad) = decode_string v (Status e) in (e\<lparr>Status := x\<rparr>, bad)))"

text \<open>
  The members of an object, in the order of the input: a key that selects no field is
  skipped with its value, a later member overwrites an earlier one, and decoding goes on
  after an error. (A key that cannot be unquoted does not pass the syntax check.)
\<close>

fun decode_object :: "(string \<times> json) list \<Rightarrow> Error \<Rightarrow> Error \<times> bool" where
  "decode_object [] e = (e, False)"
| "decode_object ((k, v) # ms) e =
     (case unquote k of
        None \<Rightarrow> (e, True)
      | Some key \<Rightarrow>
          (case (case find_field key of None \<Rightarrow> (e, False) | Some f \<Rightarrow> decode_field f v e) of
             (e1, bad1) \<Rightarrow>
               (case decode_object ms e1 of (e2, bad2) \<Rightarrow> (e2, bad1 \<or> bad2))))"

text \<open>
  \<^verbatim>\<open>json.Unmarshal(data, e)\<close> for a non-nil \<^verbatim>\<open>e *Error\<close>: the struct after the call and
  whether the error returned is not nil. A syntax error leaves the struct untouched. An
  object is decoded member by member, \<^verbatim>\<open>null\<close> changes nothing and is no error, and any
  other value is an \<^verbatim>\<open>UnmarshalTypeError\<close>.
\<close>

definition Unmarshal :: "string \<Rightarrow> Error \<Rightarrow> Error \<times> bool" where
  "Unmarshal data e =
     (case parse_document data of
        None \<Rightarrow> (e, True)
      | Some v \<Rightarrow>
          (case v of
             JObject ms \<Rightarrow> decode_object ms e
           | JNull \<Rightarrow> (e, False)
           | _ \<Rightarrow> (e, True)))"

section \<open>Constructors\<close>

text \<open>\<^verbatim>\<open>New\<close>: the status is looked up for \<^verbatim>\<open>int(code)\<close>, the signed value of the code.\<close>

definition New :: "heap \<Rightarrow> string \<Rightarrow> string \<Rightarrow> int32 \<Rightarrow> heap \<times> error" where
  "New h i d c =
     (let (h', a) = alloc h \<lparr>Id_fld = i, Code = c, Detail = d,
                              Status = StatusText (sint c)\<rparr>
      in (h', ErrorPtr (Some a)))"

definition BadRequest :: "heap \<Rightarrow> iface list \<Rightarrow> heap \<times> error" where
  "BadRequest h a =
     (let (h', p) = alloc h \<lparr>Id_fld = ''400'', Code = 400, Detail = Sprintf ''%s'' a,
                              Status = StatusText 400\<rparr>
      in (h', ErrorPtr (Some p)))"

definition Unauthorized :: "heap \<Rightarrow> iface list \<Rightarrow> heap \<times> error" where
  "Unauthorized h a =
     (let (h', p) = alloc h \<lparr>Id_fld = ''401'', Code = 401, Detail = Sprintf ''%s'' a,
                              Status = StatusText 401\<rparr>
      in (h', ErrorPtr (Some p)))"

definition Forbidden :: "heap \<Rightarrow> iface list \<Rightarrow> heap \<times> error" where
  "Forbidden h a =
     (let (h', p) = alloc h \<lparr>Id_fld = ''403'', Code = 403, Detail = Sprintf ''%s'' a,
                              Status = StatusText 403\<rparr>
      in (h', ErrorPtr (Some p)))"

definition NotFound :: "heap \<Rightarrow> iface list \<Rightarrow> heap \<times> error" where
  "NotFound h a =
     (let (h', p) = alloc h \<lparr>Id_fld = ''404'', Code = 404, Detail = Sprintf ''%s'' a,
                              Status = StatusText 404\<rparr>
      in (h', ErrorPtr (Some p)))"

definition MethodNotAllowed :: "heap \<Rightarrow> iface list \<Rightarrow> heap \<times> error" where
  "MethodNotAllowed h a =
     (let (h', p) = alloc h \<lparr>Id_fld = ''405'', Code = 405, Detail = Sprintf ''%s'' a,
                              Status = StatusText 405\<rparr>
      in (h', ErrorPtr (Some p)))"

definition Timeout :: "heap \<Rightarrow> iface list \<Rightarrow> heap \<times> error" where
  "Timeout h a =
     (let (h', p) = alloc h \<lparr>Id_fld = ''408'', Code = 408, Detail = Sprintf ''%s'' a,
                              Status = StatusText 408\<rparr>
      in (h', ErrorPtr (Some p)))"

definition Conflict :: "heap \<Rightarrow> iface list \<Rightarrow> heap \<times> error" where
  "Conflict h a =
     (let (h', p) = alloc h \<lparr>Id_fld = ''409'', Code = 409, Detail = Sprintf ''%s'' a,
                              Status = StatusText 409\<rparr>
      in (h', ErrorPtr (Some p)))"

definition InternalServerError :: "heap \<Rightarrow> iface list \<Rightarrow> heap \<times> error" where
  "InternalServerError h a =
     (let (h', p) = alloc h \<lparr>Id_fld = ''500'', Code = 500, Detail = Sprintf ''%s'' a,
                              Status = StatusText 500\<rparr>
      in (h', ErrorPtr (Some p)))"

definition ServiceUnavailable :: "heap \<Rightarrow> iface list \<Rightarrow> heap \<times> error" where
  "ServiceUnavailable h a =
     (let (h', p) = alloc h \<lparr>Id_fld = ''503'', Code = 503, Detail = Sprintf ''%s'' a,
                              Status = StatusText 503\<rparr>
      in (h', ErrorPtr (Some p)))"

definition GatewayTimeout :: "heap \<Rightarrow> iface list \<Rightarrow> heap \<times> error" where
  "GatewayTimeout h a =
     (let (h', p) = alloc h \<lparr>Id_fld = ''504'', Code = 504, Detail = Sprintf ''%s'' a,
                              Status = StatusText 504\<rparr>
      in (h', ErrorPtr (Some p)))"

text \<open>
  \<^verbatim>\<open>Parse\<close>: \<^verbatim>\<open>new(Error)\<close> allocates a cell of zero values, \<^verbatim>\<open>json.Unmarshal\<close> writes into
  it, and on an error the input becomes the detail. The result is the \<^verbatim>\<open>*Error\<close>.
\<close>

definition zero_Error :: Error where
  "zero_Error = \<lparr>Id_fld = [], Code = 0, Detail = [], Status = []\<rparr>"

definition Parse :: "heap \<Rightarrow> string \<Rightarrow> heap \<times> addr" where
  "Parse h err =
     (let (h1, e) = alloc h zero_Error;
          (v, errr) = Unmarshal err (h1 ! e);
          h2 = h1[e := v];
          h3 = (if errr then h2[e := (h2 ! e)\<lparr>Detail := err\<rparr>] else h2)
      in (h3, e))"

section \<open>Accessors and range predicates\<close>

text \<open>
  A type assertion \<^verbatim>\<open>err.(*Error)\<close> succeeds exactly on \<open>ErrorPtr p\<close>, also when \<open>p\<close> is
  the nil pointer; the field access that follows then panics (\<open>None\<close>).
  \<^verbatim>\<open>GetHTTPStatus\<close> returns an \<^verbatim>\<open>int\<close>.
\<close>

definition GetHTTPStatus :: "heap \<Rightarrow> error \<Rightarrow> int option" where
  "GetHTTPStatus h err =
     (case err of
        ErrorPtr p \<Rightarrow> (case deref h p of None \<Rightarrow> None | Some e \<Rightarrow> Some (sint (Code e)))
      | _ \<Rightarrow> Some 500)"

definition GetErrorID :: "heap \<Rightarrow> error \<Rightarrow> string option" where
  "GetErrorID h err =
     (case err of
        ErrorPtr p \<Rightarrow> (case deref h p of None \<Rightarrow> None | Some e \<Rightarrow> Some (Id_fld e))
      | _ \<Rightarrow> Some ''UNKNOWN_ERROR'')"

definition IsBadRequest :: "heap \<Rightarrow> error \<Rightarrow> bool option" where
  "IsBadRequest h err =
     (case err of
        ErrorPtr p \<Rightarrow> (case deref h p of None \<Rightarrow> None
                       | Some e \<Rightarrow> Some (400 \<le>s Code e \<and> Code e <s 500))
      | _ \<Rightarrow> Some False)"

definition IsServerError :: "heap \<Rightarrow> error \<Rightarrow> bool option" where
  "IsServerError h err =
     (case err of
        ErrorPtr p \<Rightarrow> (case deref h p of None \<Rightarrow> None
                       | Some e \<Rightarrow> Some (500 \<le>s Code e \<and> Code e <s 600))
      | _ \<Rightarrow> Some False)"

section \<open>The builder\<close>

text \<open>
  The setters write one field of the builder and return the same builder, so a chain of
  calls passes one builder along. Its fields \<^verbatim>\<open>id\<close>, \<^verbatim>\<open>code\<close> and \<^verbatim>\<open>detail\<close> carry
  the prefix \<open>b_\<close> (\<open>id\<close> is the identity function of HOL), and so does its method
  \<^verbatim>\<open>WithDetail\<close> (the package also has a function \<^verbatim>\<open>WithDetail\<close> on errors). The
  setter \<^verbatim>\<open>WithDetailf\<close> takes a format of the caller's choice, beyond the verbs that
  \<open>Sprintf\<close> interprets here, and is left out.
\<close>

record ErrorBuilder =
  b_id :: string
  b_code :: int32
  b_detail :: string

definition NewBuilder :: ErrorBuilder where
  "NewBuilder = \<lparr>b_id = ''CUSTOM_ERROR'', b_code = 500, b_detail = []\<rparr>"

definition WithID :: "ErrorBuilder \<Rightarrow> string \<Rightarrow> ErrorBuilder" where
  "WithID b i = b\<lparr>b_id := i\<rparr>"

definition WithCode :: "ErrorBuilder \<Rightarrow> int32 \<Rightarrow> ErrorBuilder" where
  "WithCode b c = b\<lparr>b_code := c\<rparr>"

definition b_WithDetail :: "ErrorBuilder \<Rightarrow> string \<Rightarrow> ErrorBuilder" where
  "b_WithDetail b d = b\<lparr>b_detail := d\<rparr>"

definition Build :: "heap \<Rightarrow> ErrorBuilder \<Rightarrow> heap \<times> error" where
  "Build h b = New h (b_id b) (b_detail b) (b_code b)"

section \<open>Comparison and wrapping\<close>

definition Is :: "heap \<Rightarrow> error \<Rightarrow> error \<Rightarrow> bool option" where
  "Is h err target =
     (if err = Nil \<or> target = Nil then Some False
      else
        (case (err, target) of
           (ErrorPtr p, ErrorPtr q) \<Rightarrow>
             (case deref h p of None \<Rightarrow> None
              | Some e \<Rightarrow>
                  (case deref h q of None \<Rightarrow> None
                   | Some t \<Rightarrow> Some (Id_fld e = Id_fld t)))
         | _ \<Rightarrow>
             (case Error_method h err of None \<Rightarrow> None
              | Some a \<Rightarrow>
                  (case Error_method h target of None \<Rightarrow> None
                   | Some b \<Rightarrow> Some (a = b)))))"

definition Wrap :: "heap \<Rightarrow> error \<Rightarrow> string \<Rightarrow> (heap \<times> error) option" where
  "Wrap h originalError message =
     (case originalError of
        Nil \<Rightarrow> Some (New h ''WRAPPED_ERROR'' message 500)
      | ErrorPtr p \<Rightarrow>
          (case deref h p of None \<Rightarrow> None
           | Some e \<Rightarrow>
               Some (let (h', a) = alloc h
                           \<lparr>Id_fld = Id_fld e, Code = Code e,
                            Detail = Sprintf ''%s: %s'' [IString message, IString (Detail e)],
                            Status = Status e\<rparr>
                     in (h', ErrorPtr (Some a))))
      | Other t s \<Rightarrow>
          Some (New h ''WRAPPED_ERROR''
                  (Sprintf ''%s: %v'' [IString message, IError t s]) 500))"

definition WithDetail :: "heap \<Rightarrow> error \<Rightarrow> string \<Rightarrow> (heap \<times> error) option" where
  "WithDetail h originalError d =
     (case originalError of
        Nil \<Rightarrow> Some (New h ''DETAILED_ERROR'' d 500)
      | ErrorPtr p \<Rightarrow>
          (case deref h p of None \<Rightarrow> None
           | Some e \<Rightarrow>
               Some (let (h', a) = alloc h
                           \<lparr>Id_fld = Id_fld e, Code = Code e, Detail = d, Status = Status e\<rparr>
                     in (h', ErrorPtr (Some a))))
      | Other t s \<Rightarrow> Some (New h ''DETAILED_ERROR'' d 500))"

section \<open>The sentinel errors of the collateral service\<close>

text \<open>
  The package-level variables. Their initialisers run once, in the order of the source,
  when the package is loaded: \<open>init_package\<close> is the heap and the variables after that.
\<close>

record globals =
  ErrCollateralNotFound :: error
  ErrCollateralExists :: error
  ErrInvalidCollateralInput :: error
  ErrCollateralSyncFailed :: error
  ErrDatabaseOperation :: error
  ErrExternalService :: error

definition init_package :: "heap \<times> globals" where
  "init_package =
     (let (h1, e1) = NotFound [] [IString ''collateral not found''];
          (h2, e2) = Conflict h1 [IString ''collateral already exists''];
          (h3, e3) = BadRequest h2 [IString ''invalid collateral input''];
          (h4, e4) = ServiceUnavailable h3 [IString ''collateral synchronization failed''];
          (h5, e5) = InternalServerError h4 [IString ''database operation failed''];
          (h6, e6) = ServiceUnavailable h5 [IString ''external service unavailable'']
      in (h6, \<lparr>ErrCollateralNotFound = e1, ErrCollateralExists = e2,
               ErrInvalidCollateralInput = e3, ErrCollateralSyncFailed = e4,
               ErrDatabaseOperation = e5, ErrExternalService = e6\<rparr>))"

text \<open>
  \<^verbatim>\<open>IsNotFound\<close> and \<^verbatim>\<open>IsAlreadyExists\<close>: the second comparison, and with it the
  construction of the empty-detail error, runs only when the first one is false
  (\<^verbatim>\<open>||\<close>). The error built for it is not reachable afterwards, so the functions return
  their result only.
\<close>

definition IsNotFound :: "heap \<Rightarrow> globals \<Rightarrow> error \<Rightarrow> bool option" where
  "IsNotFound h g err =
     (case Is h err (ErrCollateralNotFound g) of
        None \<Rightarrow> None
      | Some True \<Rightarrow> Some True
      | Some False \<Rightarrow> (let (h', t) = NotFound h [IString []] in Is h' err t))"

definition IsAlreadyExists :: "heap \<Rightarrow> globals \<Rightarrow> error \<Rightarrow> bool option" where
  "IsAlreadyExists h g err =
     (case Is h err (ErrCollateralExists g) of
        None \<Rightarrow> None
      | Some True \<Rightarrow> Some True
      | Some False \<Rightarrow> (let (h', t) = Conflict h [IString []] in Is h' err t))"

section \<open>Properties\<close>

subsection \<open>Helper facts\<close>

lemma char_of_eq_iff: "(char_of (n::nat) = c) = (n mod 256 = of_char c)"
  by (metis char_of_char of_char_of char_of_mod_256)

lemma eq_char_of_iff: "(c = char_of (n::nat)) = (n mod 256 = of_char c)"
  by (metis char_of_char of_char_of char_of_mod_256)

subsection \<open>UTF-8: encoding a decoded rune gives its bytes back\<close>

lemma mod_window:
  fixes a :: nat
  assumes "q * m \<le> a" and "a < q * m + m"
  shows "a mod m = a - q * m"
proof -
  obtain k where k: "a = q * m + k" using assms(1) by (metis le_Suc_ex)
  with assms(2) have "k < m" by simp
  then show ?thesis using k by simp
qed

lemma m32: "192 \<le> (a::nat) \<Longrightarrow> a < 224 \<Longrightarrow> a mod 32 = a - 192"
  using mod_window [of 6 32 a] by simp
lemma m16: "224 \<le> (a::nat) \<Longrightarrow> a < 240 \<Longrightarrow> a mod 16 = a - 224"
  using mod_window [of 14 16 a] by simp
lemma m8: "240 \<le> (a::nat) \<Longrightarrow> a < 248 \<Longrightarrow> a mod 8 = a - 240"
  using mod_window [of 30 8 a] by simp
lemma m64: "128 \<le> (a::nat) \<Longrightarrow> a < 192 \<Longrightarrow> a mod 64 = a - 128"
  using mod_window [of 2 64 a] by simp

lemma enc2: "2 \<le> x \<Longrightarrow> x < 32 \<Longrightarrow> y < 64 \<Longrightarrow>
   EncodeRune (x * 64 + y) = [char_of (192 + x), char_of (128 + y)]"
  by (simp add: EncodeRune_def)

lemma hl: "lo < (m::nat) \<Longrightarrow> (hi * m + lo) div m = hi \<and> (hi * m + lo) mod m = lo"
  by simp

lemma divmod3:
  fixes x y z :: nat
  assumes "y < 64" and "z < 64"
  shows "(x * 4096 + y * 64 + z) div 4096 = x"
    and "(x * 4096 + y * 64 + z) div 64 = x * 64 + y"
    and "(x * 4096 + y * 64 + z) mod 64 = z"
proof -
  have a: "x * 4096 + y * 64 + z = (x * 64 + y) * 64 + z" by simp
  have b: "x * 4096 + y * 64 + z = x * 4096 + (y * 64 + z)" by simp
  have c: "y * 64 + z < 4096" using assms by simp
  show "(x * 4096 + y * 64 + z) div 4096 = x"
    by (subst b) (use hl [OF c] in blast)
  show "(x * 4096 + y * 64 + z) div 64 = x * 64 + y"
    by (subst a) (use hl [OF assms(2)] in blast)
  show "(x * 4096 + y * 64 + z) mod 64 = z"
    by (subst a) (use hl [OF assms(2)] in blast)
qed

lemma enc3: "x < 16 \<Longrightarrow> y < 64 \<Longrightarrow> z < 64 \<Longrightarrow> (x = 0 \<longrightarrow> 32 \<le> y) \<Longrightarrow> (x = 13 \<longrightarrow> y < 32) \<Longrightarrow>
   EncodeRune (x * 4096 + y * 64 + z) = [char_of (224 + x), char_of (128 + y), char_of (128 + z)]"
proof -
  assume h: "x < 16" "y < 64" "z < 64" "x = 0 \<longrightarrow> 32 \<le> y" "x = 13 \<longrightarrow> y < 32"
  let ?r = "x * 4096 + y * 64 + z"
  note dm = divmod3 [OF h(2) h(3), of x]
  have dm2: "(?r div 64) mod 64 = y" unfolding dm(2) using h(2) by simp
  have lo: "2047 < ?r" using h by (cases "x = 0") auto
  have hi: "?r \<le> 65535" using h by simp
  have ns: "\<not> (55296 \<le> ?r \<and> ?r \<le> 57343)"
  proof (cases "x = 13")
    case True then show ?thesis using h by simp
  next
    case False
    then have "x < 13 \<or> 14 \<le> x" by linarith
    then show ?thesis using h by auto
  qed
  have big: "\<not> 1114111 < ?r" using hi by simp
  have n1: "\<not> ?r \<le> 127" "\<not> ?r \<le> 2047" using lo by simp_all
  show ?thesis
    unfolding EncodeRune_def
    by (simp only: n1 big ns hi dm(1) dm2 dm(3) if_False if_True simp_thms)
qed


lemma divmod4:
  fixes x y z w :: nat
  assumes "y < 64" and "z < 64" and "w < 64"
  shows "(x * 262144 + y * 4096 + z * 64 + w) div 262144 = x"
    and "(x * 262144 + y * 4096 + z * 64 + w) div 4096 = x * 64 + y"
    and "(x * 262144 + y * 4096 + z * 64 + w) div 64 = (x * 64 + y) * 64 + z"
    and "(x * 262144 + y * 4096 + z * 64 + w) mod 64 = w"
proof -
  let ?r = "x * 262144 + y * 4096 + z * 64 + w"
  have a: "?r = ((x * 64 + y) * 64 + z) * 64 + w" by simp
  have b: "?r = (x * 64 + y) * 4096 + (z * 64 + w)" by simp
  have c: "?r = x * 262144 + (y * 4096 + z * 64 + w)" by simp
  have b': "z * 64 + w < 4096" using assms by simp
  have c': "y * 4096 + z * 64 + w < 262144" using assms by simp
  show "?r div 262144 = x"
    by (subst c) (use hl [OF c'] in blast)
  show "?r div 4096 = x * 64 + y"
    by (subst b) (use hl [OF b'] in blast)
  show "?r div 64 = (x * 64 + y) * 64 + z"
    by (subst a) (use hl [OF assms(3)] in blast)
  show "?r mod 64 = w"
    by (subst a) (use hl [OF assms(3)] in blast)
qed

lemma enc4:
  assumes h: "x \<le> 4" "y < 64" "z < 64" "w < 64" "x = 0 \<longrightarrow> 16 \<le> y" "x = 4 \<longrightarrow> y < 16"
  shows "EncodeRune (x * 262144 + y * 4096 + z * 64 + w) =
         [char_of (240 + x), char_of (128 + y), char_of (128 + z), char_of (128 + w)]"
proof -
  let ?r = "x * 262144 + y * 4096 + z * 64 + w"
  note dm = divmod4 [OF h(2) h(3) h(4), of x]
  have dm2: "(?r div 4096) mod 64 = y" unfolding dm(2) using h(2) by simp
  have dm3: "(?r div 64) mod 64 = z" unfolding dm(3) using hl [OF h(3)] by blast
  have lo: "65535 < ?r" using h by (cases "x = 0") auto
  have big: "\<not> 1114111 < ?r"
  proof (cases "x = 4")
    case True then show ?thesis using h by simp
  next
    case False
    then have "x \<le> 3" using h(1) by linarith
    then show ?thesis using h by simp
  qed
  have n1: "\<not> ?r \<le> 127" "\<not> ?r \<le> 2047" "\<not> ?r \<le> 65535"
    and ns: "\<not> (55296 \<le> ?r \<and> ?r \<le> 57343)" using lo by simp_all
  show ?thesis
    unfolding EncodeRune_def
    by (simp only: n1 big ns dm(1) dm2 dm3 dm(4) if_False if_True simp_thms)
qed

lemma char_of_of_char_shift:
  "k \<le> (of_char c :: nat) \<Longrightarrow> char_of (k + (of_char c - k)) = c"
  by simp

lemma DecodeRune_ascii: "(of_char c :: nat) < 128 \<Longrightarrow> DecodeRune (c # cs) = (of_char c, 1)"
  by (simp add: DecodeRune_def)

lemma DecodeRune_size: "DecodeRune (c # cs) = (r, n) \<Longrightarrow> 1 \<le> n \<and> n \<le> length (c # cs)"
  by (auto simp: DecodeRune_def Let_def Suc_le_eq split: if_splits)


lemma list_shape4:
  obtains "cs = []" | c1 where "cs = [c1]" | c1 c2 where "cs = [c1, c2]"
  | c1 c2 c3 t where "cs = c1 # c2 # c3 # t"
  by (metis list.exhaust)

lemma DecodeRune_cases:
  assumes "DecodeRune (c # cs) = (r, n)" and "128 \<le> (of_char c :: nat)"
    and "\<not> (r = RuneError \<and> n = 1)"
  shows "(\<exists>c1 t. cs = c1 # t \<and> n = 2 \<and> 194 \<le> (of_char c :: nat) \<and> (of_char c :: nat) < 224 \<and>
            128 \<le> (of_char c1 :: nat) \<and> (of_char c1 :: nat) < 192 \<and>
            r = (of_char c mod 32) * 64 + of_char c1 mod 64) \<or>
         (\<exists>c1 c2 t. cs = c1 # c2 # t \<and> n = 3 \<and> 224 \<le> (of_char c :: nat) \<and> (of_char c :: nat) < 240 \<and>
            128 \<le> (of_char c1 :: nat) \<and> (of_char c1 :: nat) < 192 \<and>
            ((of_char c :: nat) = 224 \<longrightarrow> 160 \<le> (of_char c1 :: nat)) \<and>
            ((of_char c :: nat) = 237 \<longrightarrow> (of_char c1 :: nat) < 160) \<and>
            128 \<le> (of_char c2 :: nat) \<and> (of_char c2 :: nat) < 192 \<and>
            r = (of_char c mod 16) * 4096 + (of_char c1 mod 64) * 64 + of_char c2 mod 64) \<or>
         (\<exists>c1 c2 c3 t. cs = c1 # c2 # c3 # t \<and> n = 4 \<and> 240 \<le> (of_char c :: nat) \<and> (of_char c :: nat) \<le> 244 \<and>
            128 \<le> (of_char c1 :: nat) \<and> (of_char c1 :: nat) < 192 \<and>
            ((of_char c :: nat) = 240 \<longrightarrow> 144 \<le> (of_char c1 :: nat)) \<and>
            ((of_char c :: nat) = 244 \<longrightarrow> (of_char c1 :: nat) < 144) \<and>
            128 \<le> (of_char c2 :: nat) \<and> (of_char c2 :: nat) < 192 \<and>
            128 \<le> (of_char c3 :: nat) \<and> (of_char c3 :: nat) < 192 \<and>
            r = (of_char c mod 8) * 262144 + (of_char c1 mod 64) * 4096 + (of_char c2 mod 64) * 64
                + of_char c3 mod 64)"
proof (cases rule: list_shape4 [of cs])
  case 1
  then show ?thesis using assms by (auto simp: DecodeRune_def Let_def split: if_splits)
next
  case (2 c1)
  then show ?thesis using assms by (auto simp: DecodeRune_def Let_def split: if_splits)
next
  case (3 c1 c2)
  then show ?thesis using assms by (auto simp: DecodeRune_def Let_def split: if_splits)
next
  case (4 c1 c2 c3 t)
  then show ?thesis using assms by (auto simp: DecodeRune_def Let_def split: if_splits)
qed


lemma DecodeRune_multibyte:
  assumes d: "DecodeRune (c # cs) = (r, n)" and hi: "128 \<le> (of_char c :: nat)"
    and v: "\<not> (r = RuneError \<and> n = 1)"
  shows "EncodeRune r = take n (c # cs) \<and> 2 \<le> n \<and> n \<le> length (c # cs) \<and>
         (\<forall>x\<in>set (take n (c # cs)). 128 \<le> (of_char x :: nat)) \<and>
         (\<forall>t. DecodeRune (take n (c # cs) @ t) = (r, n)) \<and> 128 \<le> r"
proof -
  let ?s0 = "of_char c :: nat"
  from DecodeRune_cases [OF d hi v]
  consider
    (two) c1 t where "cs = c1 # t" "n = 2" "194 \<le> ?s0" "?s0 < 224"
      "128 \<le> (of_char c1 :: nat)" "(of_char c1 :: nat) < 192"
      "r = (?s0 mod 32) * 64 + of_char c1 mod 64"
  | (three) c1 c2 t where "cs = c1 # c2 # t" "n = 3" "224 \<le> ?s0" "?s0 < 240"
      "128 \<le> (of_char c1 :: nat)" "(of_char c1 :: nat) < 192"
      "?s0 = 224 \<longrightarrow> 160 \<le> (of_char c1 :: nat)" "?s0 = 237 \<longrightarrow> (of_char c1 :: nat) < 160"
      "128 \<le> (of_char c2 :: nat)" "(of_char c2 :: nat) < 192"
      "r = (?s0 mod 16) * 4096 + (of_char c1 mod 64) * 64 + of_char c2 mod 64"
  | (four) c1 c2 c3 t where "cs = c1 # c2 # c3 # t" "n = 4" "240 \<le> ?s0" "?s0 \<le> 244"
      "128 \<le> (of_char c1 :: nat)" "(of_char c1 :: nat) < 192"
      "?s0 = 240 \<longrightarrow> 144 \<le> (of_char c1 :: nat)" "?s0 = 244 \<longrightarrow> (of_char c1 :: nat) < 144"
      "128 \<le> (of_char c2 :: nat)" "(of_char c2 :: nat) < 192"
      "128 \<le> (of_char c3 :: nat)" "(of_char c3 :: nat) < 192"
      "r = (?s0 mod 8) * 262144 + (of_char c1 mod 64) * 4096 + (of_char c2 mod 64) * 64
           + of_char c3 mod 64"
    by blast
  then show ?thesis
  proof cases
    case two
    let ?x = "?s0 - 192" and ?y = "(of_char c1 :: nat) - 128"
    have r: "r = ?x * 64 + ?y"
      using two by (simp add: m32 m64)
    have x: "2 \<le> ?x" "?x < 32" and y: "?y < 64" using two by simp_all
    have enc: "EncodeRune r = [c, c1]"
      unfolding r using enc2 [OF x y] two by simp
    have dec: "DecodeRune (c # c1 # t') = (r, 2)" for t'
      using two by (simp add: DecodeRune_def Let_def)
    have "128 \<le> r" unfolding r using x by simp
    then show ?thesis using two enc dec hi by simp
  next
    case three
    let ?x = "?s0 - 224" and ?y = "(of_char c1 :: nat) - 128" and ?z = "(of_char c2 :: nat) - 128"
    have r: "r = ?x * 4096 + ?y * 64 + ?z"
      using three by (simp add: m16 m64)
    have x: "?x < 16" and y: "?y < 64" and z: "?z < 64"
      and x0: "?x = 0 \<longrightarrow> 32 \<le> ?y" and x13: "?x = 13 \<longrightarrow> ?y < 32"
      using three by auto
    have enc: "EncodeRune r = [c, c1, c2]"
      unfolding r using enc3 [OF x y z x0 x13] three by simp
    have dec: "DecodeRune (c # c1 # c2 # t') = (r, 3)" for t'
      using three by (auto simp: DecodeRune_def Let_def)
    have "128 \<le> r" unfolding r using x0 by (cases "?x = 0") auto
    then show ?thesis using three enc dec hi by simp
  next
    case four
    let ?x = "?s0 - 240" and ?y = "(of_char c1 :: nat) - 128" and ?z = "(of_char c2 :: nat) - 128"
      and ?w = "(of_char c3 :: nat) - 128"
    have r: "r = ?x * 262144 + ?y * 4096 + ?z * 64 + ?w"
      using four by (simp add: m8 m64)
    have x: "?x \<le> 4" and y: "?y < 64" and z: "?z < 64" and w: "?w < 64"
      and x0: "?x = 0 \<longrightarrow> 16 \<le> ?y" and x4: "?x = 4 \<longrightarrow> ?y < 16"
      using four by auto
    have enc: "EncodeRune r = [c, c1, c2, c3]"
      unfolding r using enc4 [OF x y z w x0 x4] four by simp
    have dec: "DecodeRune (c # c1 # c2 # c3 # t') = (r, 4)" for t'
      using four by (auto simp: DecodeRune_def Let_def)
    have "128 \<le> r" unfolding r using x0 by (cases "?x = 0") auto
    then show ?thesis using four enc dec hi by simp
  qed
qed

subsection \<open>Unquoting an encoded string gives the string back\<close>

text \<open>
  The recursive equations of the loops are taken out of the simplifier's rules; they are
  unfolded where a proof asks for them.
\<close>

declare unquote_loop.simps(2) [simp del]
declare appendString_loop.simps(2) [simp del]
declare scan_string.simps(2) [simp del]
declare plain_len.simps(2) [simp del]
declare ValidString.simps(2) [simp del]
declare parse_value.simps [simp del]
declare parse_elems.simps [simp del]
declare parse_members.simps [simp del]

lemma hexval_hex_digit_all: "list_all (\<lambda>k. hexval (hex_digit k) = Some k) [0..<16]"
  by code_simp

lemma hexval_hex_digit: "k < 16 \<Longrightarrow> hexval (hex_digit k) = Some k"
  using hexval_hex_digit_all by (simp add: list_all_iff)

lemma map_option_append_single [simp]: "map_option ((@) [c]) x = map_option ((#) c) x"
  by (cases x) simp_all

lemma map_option_append_Nil [simp]: "map_option ((@) []) x = x"
  by (cases x) simp_all

lemma unquote_loop_safe:
  "htmlSafe c \<Longrightarrow> unquote_loop (c # Y) = map_option ((#) c) (unquote_loop Y)"
  by (simp add: htmlSafe_def unquote_loop.simps(2))

lemma getu4_u00:
  assumes "b < 128"
  shows "getu4 (bslash # CHR ''u'' # CHR ''0'' # CHR ''0'' # hex_digit (b div 16) # hex_digit (b mod 16) # Y)
         = Some b"
proof -
  have "b div 16 < 16" "b mod 16 < 16" using assms by simp_all
  moreover have "hexval CHR ''0'' = Some 0" by (simp add: hexval_def)
  ultimately show ?thesis
    by (simp add: getu4_def hexval_hex_digit)
qed

lemma unquote_loop_escape_ascii:
  assumes "(of_char c :: nat) < 128" and "\<not> htmlSafe c"
  shows "unquote_loop (escape_ascii c @ Y) = map_option ((#) c) (unquote_loop Y)"
proof -
  consider "c = bslash" | "c = dquote" | "c = CHR 0x08" | "c = CHR 0x0C" | "c = CHR 0x0A"
    | "c = CHR 0x0D" | "c = CHR 0x09"
    | "c \<noteq> bslash" "c \<noteq> dquote" "c \<noteq> CHR 0x08" "c \<noteq> CHR 0x0C" "c \<noteq> CHR 0x0A"
      "c \<noteq> CHR 0x0D" "c \<noteq> CHR 0x09"
    by blast
  then show ?thesis
  proof cases
    case 8
    let ?b = "of_char c :: nat"
    have e: "escape_ascii c = [bslash, CHR ''u'', CHR ''0'', CHR ''0'', hex_digit (?b div 16),
                               hex_digit (?b mod 16)]"
      using 8 by (simp add: escape_ascii_def)
    have g: "getu4 (bslash # CHR ''u'' # CHR ''0'' # CHR ''0'' # hex_digit (?b div 16)
                     # hex_digit (?b mod 16) # Y) = Some ?b"
      by (rule getu4_u00 [OF assms(1)])
    have enc: "EncodeRune ?b = [c]" using assms(1) by (simp add: EncodeRune_def)
    have ns: "\<not> IsSurrogate ?b" using assms(1) by (simp add: IsSurrogate_def)
    show ?thesis
      unfolding e using g enc ns by (simp add: unquote_loop.simps(2))
  qed (simp_all add: escape_ascii_def unquote_loop.simps(2))
qed


lemma unquote_loop_multibyte:
  assumes d: "DecodeRune (c # cs) = (r, n)" and hi: "128 \<le> (of_char c :: nat)"
    and v: "\<not> (r = RuneError \<and> n = 1)"
  shows "unquote_loop (take n (c # cs) @ Y) = map_option ((@) (take n (c # cs))) (unquote_loop Y)"
proof -
  note m = DecodeRune_multibyte [OF d hi v]
  from m have n: "2 \<le> n" "n \<le> length (c # cs)" by simp_all
  then obtain k where k: "n = Suc k" by (cases n) simp_all
  have t: "take n (c # cs) @ Y = c # (take k cs @ Y)" using k by simp
  have dec: "DecodeRune (c # (take k cs @ Y)) = (r, n)" using m t by metis
  have c: "c \<noteq> bslash" "c \<noteq> dquote" "\<not> (of_char c :: nat) < 32" "\<not> (of_char c :: nat) < 128"
    using hi by auto
  have len: "k \<le> length cs" using n k by simp
  have "unquote_loop (c # (take k cs @ Y)) = map_option ((@) (EncodeRune r)) (unquote_loop Y)"
    using c dec k len by (simp add: unquote_loop.simps(2))
  then show ?thesis using m t by simp
qed

lemma getu4_2028:
  "getu4 (bslash # CHR ''u'' # CHR ''2'' # CHR ''0'' # CHR ''2'' # CHR ''8'' # Y) = Some 0x2028"
  "getu4 (bslash # CHR ''u'' # CHR ''2'' # CHR ''0'' # CHR ''2'' # CHR ''9'' # Y) = Some 0x2029"
  by (simp_all add: getu4_def hexval_def)

lemma unquote_loop_2028:
  assumes d: "DecodeRune (c # cs) = (r, n)" and hi: "128 \<le> (of_char c :: nat)"
    and r: "r = 0x2028 \<or> r = 0x2029"
  shows "unquote_loop ((bslash # ''u202'') @ [hex_digit (r mod 16)] @ Y)
         = map_option ((@) (take n (c # cs))) (unquote_loop Y)"
proof -
  have v: "\<not> (r = RuneError \<and> n = 1)" using r by (auto simp: RuneError_def)
  note m = DecodeRune_multibyte [OF d hi v]
  have ns: "\<not> IsSurrogate r" using r by (auto simp: IsSurrogate_def)
  from r show ?thesis
  proof
    assume "r = 0x2028"
    then show ?thesis using m getu4_2028(1) [of Y] ns
      by (simp add: hex_digit_def unquote_loop.simps(2))
  next
    assume "r = 0x2029"
    then show ?thesis using m getu4_2028(2) [of Y] ns
      by (simp add: hex_digit_def unquote_loop.simps(2))
  qed
qed

lemma ValidString_Cons:
  "ValidString (c # cs) \<Longrightarrow> DecodeRune (c # cs) = (r, n) \<Longrightarrow>
     \<not> (r = RuneError \<and> n = 1) \<and> ValidString (drop (n - 1) cs)"
  by (simp add: ValidString.simps(2) split: if_splits)

lemma take_drop_Cons: "1 \<le> n \<Longrightarrow> take n (c # cs) @ drop (n - 1) cs = c # cs"
  by (cases n) simp_all

lemma unquote_loop_appendString_loop:
  "ValidString s \<Longrightarrow> unquote_loop (appendString_loop s) = Some s"
proof (induction "length s" arbitrary: s rule: less_induct)
  case less
  show ?case
  proof (cases s)
    case Nil
    then show ?thesis by simp
  next
    case (Cons c cs)
    obtain r n where d: "DecodeRune (c # cs) = (r, n)" by (cases "DecodeRune (c # cs)")
    from less.prems Cons d have v: "\<not> (r = RuneError \<and> n = 1)"
      and vs: "ValidString (drop (n - 1) cs)"
      using ValidString_Cons by blast+
    have IH: "unquote_loop (appendString_loop (drop (n - 1) cs)) = Some (drop (n - 1) cs)"
      using less.hyps [of "drop (n - 1) cs"] vs Cons by simp
    show ?thesis
    proof (cases "(of_char c :: nat) < 128")
      case True
      then have n1: "n = 1" using d by (simp add: DecodeRune_ascii)
      show ?thesis
      proof (cases "htmlSafe c")
        case safe: True
        then show ?thesis using True IH n1 Cons
          by (simp add: unquote_loop_safe appendString_loop.simps(2))
      next
        case False
        then show ?thesis
          using True IH n1 Cons unquote_loop_escape_ascii [OF True False]
          by (simp add: appendString_loop.simps(2))
      qed
    next
      case False
      then have hi: "128 \<le> (of_char c :: nat)" by simp
      note m = DecodeRune_multibyte [OF d hi v]
      have td: "take n (c # cs) @ drop (n - 1) cs = c # cs"
        using m by (intro take_drop_Cons) simp
      show ?thesis
      proof (cases "r = 0x2028 \<or> r = 0x2029")
        case True
        have "appendString_loop (c # cs) =
              (bslash # ''u202'') @ [hex_digit (r mod 16)] @ appendString_loop (drop (n - 1) cs)"
          using False d v True by (simp add: appendString_loop.simps(2))
        then show ?thesis
          using unquote_loop_2028 [OF d hi True] IH td Cons by simp
      next
        case nsep: False
        have "appendString_loop (c # cs) = take n (c # cs) @ appendString_loop (drop (n - 1) cs)"
          using False d v nsep by (simp add: appendString_loop.simps(2))
        then show ?thesis
          using unquote_loop_multibyte [OF d hi v] IH td Cons by simp
      qed
    qed
  qed
qed


lemma map_option_append_append:
  "map_option ((@) xs) (map_option ((@) ys) x) = map_option ((@) (xs @ ys)) x"
  by (cases x) simp_all

lemma map_option_Cons_append:
  "map_option ((#) c) (map_option ((@) ys) x) = map_option ((@) (c # ys)) x"
  by (cases x) simp_all

lemma unquote_loop_plain:
  "unquote_loop s =
     map_option ((@) (take (plain_len s) s)) (unquote_loop (drop (plain_len s) s))"
proof (induction "length s" arbitrary: s rule: less_induct)
  case less
  show ?case
  proof (cases s)
    case Nil
    then show ?thesis by simp
  next
    case (Cons c cs)
    obtain r n where d: "DecodeRune (c # cs) = (r, n)" by (cases "DecodeRune (c # cs)")
    consider (special) "c = bslash \<or> c = dquote \<or> (of_char c :: nat) < 32"
      | (ascii) "\<not> (c = bslash \<or> c = dquote \<or> (of_char c :: nat) < 32)" "(of_char c :: nat) < 128"
      | (bad) "128 \<le> (of_char c :: nat)" "r = RuneError \<and> n = 1"
      | (good) "128 \<le> (of_char c :: nat)" "\<not> (r = RuneError \<and> n = 1)"
      by linarith
    then show ?thesis
    proof cases
      case special
      then have "plain_len s = 0" using Cons by (auto simp: plain_len.simps(2))
      then show ?thesis by simp
    next
      case ascii
      have p: "plain_len s = Suc (plain_len cs)" using ascii Cons by (simp add: plain_len.simps(2))
      have u: "unquote_loop s = map_option ((#) c) (unquote_loop cs)"
        using ascii Cons by (simp add: unquote_loop.simps(2))
      have IH: "unquote_loop cs =
                map_option ((@) (take (plain_len cs) cs)) (unquote_loop (drop (plain_len cs) cs))"
        using less [of cs] Cons by simp
      show ?thesis
        unfolding u p by (subst IH) (simp add: Cons map_option_Cons_append)
    next
      case bad
      then have "plain_len s = 0" using Cons d by (auto simp: plain_len.simps(2))
      then show ?thesis by simp
    next
      case good
      note m = DecodeRune_multibyte [OF d good]
      have c: "c \<noteq> bslash" "c \<noteq> dquote" "\<not> (of_char c :: nat) < 32" "\<not> (of_char c :: nat) < 128"
        using good(1) by auto
      let ?t = "drop (n - 1) cs"
      have p: "plain_len s = n + plain_len ?t"
        using c d good(2) Cons by (simp add: plain_len.simps(2))
      have u: "unquote_loop s = map_option ((@) (take n (c # cs))) (unquote_loop ?t)"
        using c d m Cons by (simp add: unquote_loop.simps(2))
      have IH: "unquote_loop ?t =
                map_option ((@) (take (plain_len ?t) ?t)) (unquote_loop (drop (plain_len ?t) ?t))"
        using less [of ?t] Cons by simp
      have n1: "1 \<le> n" using m by simp
      have dr: "drop n (c # cs) = ?t" using n1 by (cases n) simp_all
      have tk: "take (n + plain_len ?t) (c # cs) = take n (c # cs) @ take (plain_len ?t) ?t"
        using dr by (simp add: take_add)
      have dk: "drop (n + plain_len ?t) (c # cs) = drop (plain_len ?t) ?t"
        using dr by (metis add.commute drop_drop)
      show ?thesis
        unfolding u p by (subst IH) (simp only: Cons tk dk map_option_append_append)
    qed
  qed
qed

lemma unquote_eq_unquote_loop: "unquote s = unquote_loop s"
proof (cases "plain_len s = length s")
  case True
  then show ?thesis using unquote_loop_plain [of s] by (simp add: unquote_def)
next
  case False
  then show ?thesis using unquote_loop_plain [of s] by (simp add: unquote_def)
qed

lemma unquote_appendString_loop:
  "ValidString s \<Longrightarrow> unquote (appendString_loop s) = Some s"
  by (simp add: unquote_eq_unquote_loop unquote_loop_appendString_loop)

subsection \<open>The scanner accepts an encoded string\<close>

lemma scan_string_plain_char:
  "c \<noteq> dquote \<Longrightarrow> c \<noteq> bslash \<Longrightarrow> \<not> (of_char c :: nat) < 32 \<Longrightarrow>
   scan_string Y = Some (raw, rest) \<Longrightarrow> scan_string (c # Y) = Some (c # raw, rest)"
  by (simp add: scan_string.simps(2))

lemma scan_string_plain:
  "\<forall>c\<in>set p. c \<noteq> dquote \<and> c \<noteq> bslash \<and> \<not> (of_char c :: nat) < 32 \<Longrightarrow>
   scan_string Y = Some (raw, rest) \<Longrightarrow> scan_string (p @ Y) = Some (p @ raw, rest)"
  by (induction p) (simp_all add: scan_string_plain_char)

lemma hexval_hex_digit_not_None: "k < 16 \<Longrightarrow> hexval (hex_digit k) \<noteq> None"
  by (simp add: hexval_hex_digit)

lemma scan_string_escape_ascii:
  assumes "(of_char c :: nat) < 128" and "\<not> htmlSafe c" and "scan_string Y = Some (raw, rest)"
  shows "scan_string (escape_ascii c @ Y) = Some (escape_ascii c @ raw, rest)"
proof -
  have k: "(of_char c :: nat) div 16 < 16" "(of_char c :: nat) mod 16 < 16"
    using assms(1) by simp_all
  have h0: "hexval CHR ''0'' \<noteq> None" by (simp add: hexval_def)
  show ?thesis
    using assms(3) h0 hexval_hex_digit_not_None [OF k(1)] hexval_hex_digit_not_None [OF k(2)]
    by (auto simp: escape_ascii_def scan_string.simps(2))
qed

lemma scan_string_ufffd:
  "scan_string Y = Some (raw, rest) \<Longrightarrow>
   scan_string ((bslash # ''ufffd'') @ Y) = Some ((bslash # ''ufffd'') @ raw, rest)"
  by (simp add: scan_string.simps(2) hexval_def)

lemma scan_string_u202:
  assumes "k < 16" and "scan_string Y = Some (raw, rest)"
  shows "scan_string ((bslash # ''u202'') @ [hex_digit k] @ Y)
         = Some ((bslash # ''u202'') @ [hex_digit k] @ raw, rest)"
proof -
  have h: "hexval CHR ''0'' \<noteq> None" "hexval CHR ''2'' \<noteq> None" by (simp_all add: hexval_def)
  show ?thesis
    using assms(2) h hexval_hex_digit_not_None [OF assms(1)]
    by (auto simp: scan_string.simps(2))
qed

lemma scan_string_appendString_loop:
  "scan_string (appendString_loop s @ dquote # rest) = Some (appendString_loop s, rest)"
proof (induction "length s" arbitrary: s rule: less_induct)
  case less
  show ?case
  proof (cases s)
    case Nil
    then show ?thesis by (simp add: scan_string.simps(2))
  next
    case (Cons c cs)
    obtain r n where d: "DecodeRune (c # cs) = (r, n)" by (cases "DecodeRune (c # cs)")
    have IH: "scan_string (appendString_loop t @ dquote # rest) = Some (appendString_loop t, rest)"
      if "length t \<le> length cs" for t
      using less [of t] that Cons by simp
    show ?thesis
    proof (cases "(of_char c :: nat) < 128")
      case True
      show ?thesis
      proof (cases "htmlSafe c")
        case safe: True
        then have "c \<noteq> dquote" "c \<noteq> bslash" "\<not> (of_char c :: nat) < 32"
          by (auto simp: htmlSafe_def)
        then show ?thesis
          using True safe Cons scan_string_plain_char [OF _ _ _ IH [of cs]]
          by (simp add: appendString_loop.simps(2))
      next
        case False
        then show ?thesis
          using True Cons scan_string_escape_ascii [OF True False IH [of cs]]
          by (simp add: appendString_loop.simps(2))
      qed
    next
      case False
      then have hi: "128 \<le> (of_char c :: nat)" by simp
      show ?thesis
      proof (cases "r = RuneError \<and> n = 1")
        case True
        then show ?thesis
          using False d Cons scan_string_ufffd [OF IH [of cs]]
          by (simp add: appendString_loop.simps(2))
      next
        case v: False
        note m = DecodeRune_multibyte [OF d hi v]
        let ?t = "drop (n - 1) cs"
        have lt: "length ?t \<le> length cs" by simp
        show ?thesis
        proof (cases "r = 0x2028 \<or> r = 0x2029")
          case True
          have k: "r mod 16 < 16" by simp
          show ?thesis
            using False d v True Cons scan_string_u202 [OF k IH [OF lt]]
            by (auto simp: appendString_loop.simps(2) RuneError_def)
        next
          case nsep: False
          have pl: "\<forall>x\<in>set (take n (c # cs)). x \<noteq> dquote \<and> x \<noteq> bslash \<and> \<not> (of_char x :: nat) < 32"
            using m by auto
          show ?thesis
            using False d v nsep Cons scan_string_plain [OF pl IH [OF lt]]
            by (auto simp: appendString_loop.simps(2))
        qed
      qed
    qed
  qed
qed

subsection \<open>Decimal numbers are read back\<close>

declare nat_digits.simps [simp del]

lemma digit_char_props:
  assumes "d < 10"
  shows "isDigit (digit_char d)" and "(of_char (digit_char d) :: nat) = 48 + d"
    and "digit_char d = CHR ''0'' \<longleftrightarrow> d = 0"
    and "digit_char d \<noteq> CHR ''-''" and "digit_char d \<noteq> CHR ''+''"
proof -
  show o: "(of_char (digit_char d) :: nat) = 48 + d"
    using assms by (simp add: digit_char_def)
  show "isDigit (digit_char d)" using assms by (simp add: isDigit_def o)
  have "(of_char (digit_char d) :: nat) = of_char CHR ''0'' \<longleftrightarrow> d = 0"
    unfolding o by simp
  then show "digit_char d = CHR ''0'' \<longleftrightarrow> d = 0" by (simp only: of_char_eq_iff)
  have "(of_char (digit_char d) :: nat) \<noteq> of_char CHR ''-''" unfolding o by simp
  then show "digit_char d \<noteq> CHR ''-''" by (simp only: of_char_eq_iff not_False_eq_True)
  have "(of_char (digit_char d) :: nat) \<noteq> of_char CHR ''+''" unfolding o by simp
  then show "digit_char d \<noteq> CHR ''+''" by (simp only: of_char_eq_iff not_False_eq_True)
qed

lemma nat_digits_all_digits: "list_all isDigit (nat_digits n)"
proof (induction n rule: nat_digits.induct)
  case (1 n)
  show ?case
  proof (cases "n < 10")
    case True
    then show ?thesis by (subst nat_digits.simps) (simp add: digit_char_props)
  next
    case False
    then show ?thesis using 1 by (subst nat_digits.simps) (simp add: digit_char_props)
  qed
qed

lemma nat_digits_nonempty: "nat_digits n \<noteq> []"
  by (subst nat_digits.simps) simp

lemma nat_digits_hd: "0 < n \<Longrightarrow> hd (nat_digits n) \<noteq> CHR ''0''"
proof (induction n rule: nat_digits.induct)
  case (1 n)
  show ?case
  proof (cases "n < 10")
    case True
    then show ?thesis using "1.prems" by (subst nat_digits.simps) (simp add: digit_char_props)
  next
    case False
    then have "0 < n div 10" by simp
    then show ?thesis
      using 1 False by (subst nat_digits.simps) (simp add: nat_digits_nonempty)
  qed
qed

lemma digits_val_snoc: "digits_val (xs @ [c]) = digits_val xs * 10 + (of_char c - 48)"
  by (simp add: digits_val_def)

lemma digits_val_nat_digits: "digits_val (nat_digits n) = n"
proof (induction n rule: nat_digits.induct)
  case (1 n)
  show ?case
  proof (cases "n < 10")
    case True
    then show ?thesis
      by (subst nat_digits.simps) (simp add: digits_val_def digit_char_props)
  next
    case False
    then show ?thesis
      using 1 by (subst nat_digits.simps) (simp add: digits_val_snoc digit_char_props)
  qed
qed


lemma comma_not_digit: "\<not> isDigit CHR '',''"
  by (simp add: isDigit_def)

lemma scan_int_part_nat_digits:
  "scan_int_part (nat_digits n @ CHR '','' # t) = Some (nat_digits n, CHR '','' # t)"
proof (cases "n = 0")
  case True
  have "nat_digits 0 = ''0''"
    by (subst nat_digits.simps) (simp add: digit_char_def char_of_eq_iff)
  then show ?thesis using True by (simp add: scan_int_part_def)
next
  case False
  obtain d ds where ds: "nat_digits n = d # ds"
    using nat_digits_nonempty [of n] by (cases "nat_digits n") simp_all
  have d0: "d \<noteq> CHR ''0''" using nat_digits_hd [of n] False ds by simp
  have dd: "isDigit d" and all: "\<forall>x\<in>set ds. isDigit x"
    using nat_digits_all_digits [of n] ds by (simp_all add: list_all_iff)
  have tw: "takeWhile isDigit (ds @ CHR '','' # t) = ds"
    using all by (simp add: takeWhile_append2 comma_not_digit)
  have dw: "dropWhile isDigit (ds @ CHR '','' # t) = CHR '','' # t"
    using all by (simp add: dropWhile_append2 comma_not_digit)
  show ?thesis
    using d0 dd tw dw by (simp add: scan_int_part_def ds)
qed

lemma nat_digits_hd_not_minus: "nat_digits n = d # ds \<Longrightarrow> d \<noteq> CHR ''-'' \<and> d \<noteq> CHR ''+''"
  using nat_digits_all_digits [of n] by (auto simp: isDigit_def)

lemma scan_number_FormatInt:
  "scan_number (FormatInt i @ CHR '','' # t) = Some (FormatInt i, CHR '','' # t)"
proof -
  have tail: "scan_frac (CHR '','' # t) = Some ([], CHR '','' # t)"
    "scan_exp (CHR '','' # t) = Some ([], CHR '','' # t)"
    by (simp_all add: scan_frac_def scan_exp_def)
  show ?thesis
  proof (cases "i < 0")
    case True
    then show ?thesis
      using scan_int_part_nat_digits [of "nat (- i)" t] tail
      by (simp add: scan_number_def FormatInt_def)
  next
    case False
    obtain d ds where ds: "nat_digits (nat i) = d # ds"
      using nat_digits_nonempty [of "nat i"] by (cases "nat_digits (nat i)") simp_all
    have nm: "d \<noteq> CHR ''-''" using nat_digits_hd_not_minus [OF ds] by simp
    have "scan_int_part (d # ds @ CHR '','' # t) = Some (d # ds, CHR '','' # t)"
      using scan_int_part_nat_digits [of "nat i" t] ds by simp
    then show ?thesis
      using False tail nm by (simp add: scan_number_def FormatInt_def ds)
  qed
qed

lemma ParseInt_FormatInt:
  assumes "- (2 ^ 63) \<le> i" and "i < 2 ^ 63"
  shows "ParseInt (FormatInt i) = Some i"
proof (cases "i < 0")
  case True
  let ?n = "nat (- i)"
  have le: "\<not> 2 ^ 63 < ?n" using assms(1) True by simp
  have "nat_digits ?n \<noteq> []" "list_all isDigit (nat_digits ?n)"
    by (simp_all add: nat_digits_nonempty nat_digits_all_digits)
  then show ?thesis
    using True le by (simp add: ParseInt_def FormatInt_def digits_val_nat_digits)
next
  case False
  let ?n = "nat i"
  obtain d ds where ds: "nat_digits ?n = d # ds"
    using nat_digits_nonempty [of ?n] by (cases "nat_digits ?n") simp_all
  have nm: "d \<noteq> CHR ''-''" "d \<noteq> CHR ''+''" using nat_digits_hd_not_minus [OF ds] by simp_all
  have all: "list_all isDigit (d # ds)" using nat_digits_all_digits [of ?n] ds by simp
  have v: "digits_val (d # ds) = ?n" using digits_val_nat_digits [of ?n] ds by simp
  have lt: "\<not> 2 ^ 63 \<le> ?n" using assms(2) False by simp
  show ?thesis
    using False nm all v lt by (simp add: ParseInt_def FormatInt_def ds)
qed

lemma decode_int32_FormatInt:
  "decode_int32 (JNumber (FormatInt (sint (c :: int32)))) old = (c, False)"
proof -
  have lo: "- (2 ^ 31) \<le> sint c" using sint_ge [of c] by simp
  have hi: "sint c < 2 ^ 31" using sint_lt [of c] by simp
  have p: "ParseInt (FormatInt (sint c)) = Some (sint c)"
    using lo hi by (intro ParseInt_FormatInt) simp_all
  show ?thesis
    using lo hi by (simp add: decode_int32_def p OverflowInt32_def)
qed

subsection \<open>Decoding the encoding of an Error\<close>

lemma skip_ws_nonspace: "\<not> isSpace c \<Longrightarrow> skip_ws (c # cs) = c # cs"
  by (simp add: skip_ws_def)

lemma not_space: "\<not> isSpace dquote" "\<not> isSpace CHR '',''" "\<not> isSpace CHR '':''"
  "\<not> isSpace CHR ''{''" "\<not> isSpace CHR ''}''"
  by (simp_all add: isSpace_def)

lemma FormatInt_hd:
  "\<exists>d ds. FormatInt i = d # ds \<and> (d = CHR ''-'' \<or> isDigit d) \<and> \<not> isSpace d \<and> d \<noteq> CHR ''{''
      \<and> d \<noteq> CHR ''['' \<and> d \<noteq> dquote"
proof (cases "i < 0")
  case True
  then show ?thesis by (simp add: FormatInt_def isSpace_def)
next
  case False
  obtain d ds where ds: "nat_digits (nat i) = d # ds"
    using nat_digits_nonempty [of "nat i"] by (cases "nat_digits (nat i)") simp_all
  have "isDigit d" using nat_digits_all_digits [of "nat i"] ds by simp
  then show ?thesis using False ds by (auto simp: FormatInt_def isSpace_def isDigit_def)
qed

lemma parse_value_string:
  "parse_value d (appendString v @ rest) = Some (JString (appendString_loop v), rest)"
  by (simp add: parse_value.simps appendString_def scan_string_appendString_loop)

lemma parse_value_number:
  "parse_value d (FormatInt i @ CHR '','' # t) = Some (JNumber (FormatInt i), CHR '','' # t)"
proof -
  obtain c cs where f: "FormatInt i = c # cs" "c = CHR ''-'' \<or> isDigit c" "c \<noteq> CHR ''{''"
    "c \<noteq> CHR ''[''" "c \<noteq> dquote"
    using FormatInt_hd [of i] by blast
  have "scan_number (c # cs @ CHR '','' # t) = Some (c # cs, CHR '','' # t)"
    using scan_number_FormatInt [of i t] f(1) by simp
  then show ?thesis
    using f by (subst parse_value.simps) auto
qed


lemma skip_ws_appendString: "skip_ws (appendString v @ rest) = appendString v @ rest"
  by (simp add: appendString_def skip_ws_def isSpace_def)

lemma skip_ws_FormatInt: "skip_ws (FormatInt i @ rest) = FormatInt i @ rest"
  using FormatInt_hd [of i] by (auto simp: skip_ws_def)

lemma skip_ws_punct:
  "skip_ws (dquote # Z) = dquote # Z" "skip_ws (CHR '','' # Z) = CHR '','' # Z"
  "skip_ws (CHR '':'' # Z) = CHR '':'' # Z" "skip_ws (CHR ''}'' # Z) = CHR ''}'' # Z"
  "skip_ws (CHR ''{'' # Z) = CHR ''{'' # Z"
  by (simp_all add: skip_ws_def isSpace_def)

lemma scan_string_key:
  "\<forall>c\<in>set k. c \<noteq> dquote \<and> c \<noteq> bslash \<and> \<not> (of_char c :: nat) < 32 \<Longrightarrow>
   scan_string (k @ dquote # Z) = Some (k, Z)"
  using scan_string_plain [of k "dquote # Z" "[]" Z]
  by (simp add: scan_string.simps(2))

lemma parse_members_string_more:
  assumes "\<forall>c\<in>set k. c \<noteq> dquote \<and> c \<noteq> bslash \<and> \<not> (of_char c :: nat) < 32"
  shows "parse_members d (dquote # k @ dquote # CHR '':'' # appendString v @ CHR '','' # dquote # Z) =
         (case parse_members d (dquote # Z) of
            None \<Rightarrow> None
          | Some (ms, rest) \<Rightarrow> Some ((k, JString (appendString_loop v)) # ms, rest))"
  by (subst parse_members.simps)
    (simp add: scan_string_key [OF assms] skip_ws_punct skip_ws_appendString parse_value_string)

lemma parse_members_number_more:
  assumes "\<forall>c\<in>set k. c \<noteq> dquote \<and> c \<noteq> bslash \<and> \<not> (of_char c :: nat) < 32"
  shows "parse_members d (dquote # k @ dquote # CHR '':'' # FormatInt i @ CHR '','' # dquote # Z) =
         (case parse_members d (dquote # Z) of
            None \<Rightarrow> None
          | Some (ms, rest) \<Rightarrow> Some ((k, JNumber (FormatInt i)) # ms, rest))"
  by (subst parse_members.simps)
    (simp add: scan_string_key [OF assms] skip_ws_punct skip_ws_FormatInt parse_value_number)

lemma parse_members_string_last:
  assumes "\<forall>c\<in>set k. c \<noteq> dquote \<and> c \<noteq> bslash \<and> \<not> (of_char c :: nat) < 32"
  shows "parse_members d (dquote # k @ dquote # CHR '':'' # appendString v @ CHR ''}'' # Z) =
         Some ([(k, JString (appendString_loop v))], Z)"
  by (subst parse_members.simps)
    (simp add: scan_string_key [OF assms] skip_ws_punct skip_ws_appendString parse_value_string)


lemma parse_document_Marshal:
  "parse_document (Marshal e) =
     Some (JObject [(''id'', JString (appendString_loop (Id_fld e))),
                    (''code'', JNumber (FormatInt (sint (Code e)))),
                    (''detail'', JString (appendString_loop (Detail e))),
                    (''status'', JString (appendString_loop (Status e)))])"
proof -
  have m1: "parse_members (Suc 0)
              (dquote # ''status'' @ dquote # CHR '':'' # appendString (Status e) @ CHR ''}'' # []) =
            Some ([(''status'', JString (appendString_loop (Status e)))], [])"
    by (rule parse_members_string_last) simp
  have m2: "parse_members (Suc 0)
              (dquote # ''detail'' @ dquote # CHR '':'' # appendString (Detail e) @ CHR '','' # dquote #
               ''status'' @ dquote # CHR '':'' # appendString (Status e) @ CHR ''}'' # []) =
            Some ([(''detail'', JString (appendString_loop (Detail e))),
                   (''status'', JString (appendString_loop (Status e)))], [])"
    by (subst parse_members_string_more) (simp_all add: m1 [simplified])
  have m3: "parse_members (Suc 0)
              (dquote # ''code'' @ dquote # CHR '':'' # FormatInt (sint (Code e)) @ CHR '','' # dquote #
               ''detail'' @ dquote # CHR '':'' # appendString (Detail e) @ CHR '','' # dquote #
               ''status'' @ dquote # CHR '':'' # appendString (Status e) @ CHR ''}'' # []) =
            Some ([(''code'', JNumber (FormatInt (sint (Code e)))),
                   (''detail'', JString (appendString_loop (Detail e))),
                   (''status'', JString (appendString_loop (Status e)))], [])"
    by (subst parse_members_number_more) (simp_all add: m2 [simplified])
  have m4: "parse_members (Suc 0)
              (dquote # ''id'' @ dquote # CHR '':'' # appendString (Id_fld e) @ CHR '','' # dquote #
               ''code'' @ dquote # CHR '':'' # FormatInt (sint (Code e)) @ CHR '','' # dquote #
               ''detail'' @ dquote # CHR '':'' # appendString (Detail e) @ CHR '','' # dquote #
               ''status'' @ dquote # CHR '':'' # appendString (Status e) @ CHR ''}'' # []) =
            Some ([(''id'', JString (appendString_loop (Id_fld e))),
                   (''code'', JNumber (FormatInt (sint (Code e)))),
                   (''detail'', JString (appendString_loop (Detail e))),
                   (''status'', JString (appendString_loop (Status e)))], [])"
    by (subst parse_members_string_more) (simp_all add: m3 [simplified])
  have pv: "parse_value 0 (Marshal e) =
            Some (JObject [(''id'', JString (appendString_loop (Id_fld e))),
                    (''code'', JNumber (FormatInt (sint (Code e)))),
                    (''detail'', JString (appendString_loop (Detail e))),
                    (''status'', JString (appendString_loop (Status e)))], [])"
    by (subst parse_value.simps)
      (simp add: Marshal_def skip_ws_punct maxNestingDepth_def m4 [simplified])
  have sk: "skip_ws (Marshal e) = Marshal e"
    by (simp add: Marshal_def skip_ws_punct)
  have nil: "skip_ws [] = []" by (simp add: skip_ws_def)
  show ?thesis
    by (simp add: parse_document_def sk pv nil)
qed


lemma unquote_names:
  "unquote ''id'' = Some ''id''" "unquote ''code'' = Some ''code''"
  "unquote ''detail'' = Some ''detail''" "unquote ''status'' = Some ''status''"
  by (simp_all add: unquote_def plain_len.simps(2))

lemma find_field_names:
  "find_field ''id'' = Some F_Id" "find_field ''code'' = Some F_Code"
  "find_field ''detail'' = Some F_Detail" "find_field ''status'' = Some F_Status"
  by (simp_all add: find_field_def json_fields_def)

lemma decode_string_appendString_loop:
  "ValidString v \<Longrightarrow> decode_string (JString (appendString_loop v)) old = (v, False)"
  by (simp add: decode_string_def unquote_appendString_loop)

lemma Unmarshal_Marshal:
  assumes "ValidString (Id_fld e)" and "ValidString (Detail e)" and "ValidString (Status e)"
  shows "Unmarshal (Marshal e) zero_Error = (e, False)"
  using assms
  by (simp add: Unmarshal_def parse_document_Marshal unquote_names find_field_names
      decode_field_def decode_string_appendString_loop decode_int32_FormatInt zero_Error_def)

lemma ascii_ValidString: "\<forall>c\<in>set s. (of_char c :: nat) < 128 \<Longrightarrow> ValidString s"
  by (induction s) (simp_all add: ValidString.simps(2) DecodeRune_ascii RuneError_def)

lemma status_table_ascii:
  "\<forall>(k, s)\<in>set status_table. \<forall>c\<in>set s. (of_char c :: nat) < 128"
  by (simp add: status_table_def)

lemma ValidString_StatusText: "ValidString (StatusText n)"
proof (cases "map_of status_table n")
  case None
  then show ?thesis by (simp add: StatusText_def)
next
  case (Some s)
  then have "(n, s) \<in> set status_table" by (rule map_of_SomeD)
  then have "\<forall>c\<in>set s. (of_char c :: nat) < 128" using status_table_ascii by blast
  then show ?thesis using Some by (simp add: StatusText_def ascii_ValidString)
qed

lemma Parse_Marshal:
  assumes "ValidString (Id_fld e)" and "ValidString (Detail e)" and "ValidString (Status e)"
  shows "Parse h (Marshal e) = (h @ [e], length h)"
  by (simp add: Parse_def alloc_def Unmarshal_Marshal [OF assms])

subsection \<open>Parse on particular inputs\<close>

lemma Unmarshal_Marshal_members:
  "Unmarshal (Marshal e) z =
     decode_object [(''id'', JString (appendString_loop (Id_fld e))),
                    (''code'', JNumber (FormatInt (sint (Code e)))),
                    (''detail'', JString (appendString_loop (Detail e))),
                    (''status'', JString (appendString_loop (Status e)))] z"
  by (simp add: Unmarshal_def parse_document_Marshal)

lemma appendString_loop_FF: "appendString_loop [CHR 0xFF] = bslash # ''ufffd''"
  by (simp add: appendString_loop.simps(2) DecodeRune_def)

lemma unquote_ufffd: "unquote (bslash # ''ufffd'') = Some [CHR 0xEF, CHR 0xBF, CHR 0xBD]"
  by (simp add: unquote_def plain_len.simps(2) unquote_loop.simps(2) getu4_def hexval_def
      IsSurrogate_def EncodeRune_def char_of_eq_iff)

lemma StatusText_0: "StatusText 0 = []"
  by (simp add: StatusText_def status_table_def)

lemma Parse_fail:
  "snd (Unmarshal inp zero_Error) \<Longrightarrow>
   Parse h inp = (h @ [(fst (Unmarshal inp zero_Error))\<lparr>Detail := inp\<rparr>], length h)"
  by (simp add: Parse_def alloc_def split_beta)

lemma Unmarshal_not_object:
  "\<forall>ms. parse_document inp \<noteq> Some (JObject ms) \<Longrightarrow> fst (Unmarshal inp e) = e"
  by (auto simp: Unmarshal_def split: option.splits json.splits)

lemma parse_document_not_valid_json: "parse_document ''not valid json'' = None"
  by (simp add: parse_document_def skip_ws_def isSpace_def parse_value.simps strip_prefix_def
      isDigit_def)

lemma Unmarshal_mismatch:
  \<open>Unmarshal ''{"id":"x","code":"a"}'' zero_Error =
     (\<lparr>Id_fld = ''x'', Code = 0, Detail = [], Status = []\<rparr>, True)\<close>
  by (simp add: Unmarshal_def parse_document_def skip_ws_def isSpace_def parse_value.simps
      parse_members.simps scan_string.simps(2) maxNestingDepth_def isDigit_def
      decode_field_def decode_string_def decode_int32_def find_field_def json_fields_def
      unquote_def plain_len.simps(2) zero_Error_def)

lemma Unmarshal_array: "Unmarshal ''[1]'' zero_Error = (zero_Error, True)"
  by (simp add: Unmarshal_def parse_document_def skip_ws_def isSpace_def parse_value.simps
      parse_elems.simps maxNestingDepth_def isDigit_def scan_number_def scan_int_part_def
      scan_frac_def scan_exp_def)

lemma parse_document_array: "parse_document ''[1]'' = Some (JArray [JNumber ''1''])"
  by (simp add: parse_document_def skip_ws_def isSpace_def parse_value.simps
      parse_elems.simps maxNestingDepth_def isDigit_def scan_number_def scan_int_part_def
      scan_frac_def scan_exp_def)

lemma StatusText_418: "StatusText 418 = ''I'' @ [CHR 0x27] @ ''m a teapot''"
  by (simp add: StatusText_def status_table_def)

subsection \<open>The parser always consumes input\<close>

text \<open>
  Every value that is parsed leaves a shorter input, so the comparisons of lengths in
  \<open>parse_elems\<close> and \<open>parse_members\<close> never fail: the two functions satisfy their
  equations without the comparisons.
\<close>

lemma scan_string_shorter: "scan_string cs = Some (raw, rest) \<Longrightarrow> length rest < length cs"
proof (induction cs arbitrary: raw rest rule: scan_string.induct)
  case 1
  then show ?case by simp
next
  case (2 c cs)
  show ?case
    using "2.prems" "2.IH"
    by (subst (asm) scan_string.simps(2))
      (fastforce split: if_splits list.splits option.splits)
qed

lemma skip_ws_le: "length (skip_ws s) \<le> length s"
  by (simp add: skip_ws_def length_dropWhile_le)

lemma scan_number_shorter: "scan_number s = Some (lit, rest) \<Longrightarrow> length rest < length s"
proof -
  have ip: "scan_int_part a = Some (x, b) \<Longrightarrow> length b < length a" for a x b
    using length_dropWhile_le [of isDigit "tl a"]
    by (auto simp: scan_int_part_def split: list.splits if_splits)
  have fp: "scan_frac a = Some (x, b) \<Longrightarrow> length b \<le> length a" for a x b
    using length_dropWhile_le [of isDigit "tl a"]
    by (auto simp: scan_frac_def split: list.splits if_splits)
  have ep: "scan_exp a = Some (x, b) \<Longrightarrow> length b \<le> length a" for a x b
    using length_dropWhile_le [of isDigit "tl a"] length_dropWhile_le [of isDigit "tl (tl a)"]
    by (auto simp: scan_exp_def split: list.splits if_splits)
  assume "scan_number s = Some (lit, rest)"
  then show ?thesis
    by (auto simp: scan_number_def split: list.splits if_splits option.splits
        dest!: ip fp ep)
qed

lemma strip_prefix_shorter:
  "p \<noteq> [] \<Longrightarrow> strip_prefix p s = Some rest \<Longrightarrow> length rest < length s"
  by (cases p; cases s) (auto simp: strip_prefix_def split: if_splits)


lemma skip_ws_Cons_shorter: "skip_ws r = c # r' \<Longrightarrow> length r' < length r"
  using skip_ws_le [of r] by simp

lemma lt_skip_ws: "length r < length (skip_ws cs) \<Longrightarrow> length r < Suc (length cs)"
  using skip_ws_le [of cs] by simp

lemma skip_ws_Cons_shorter': "skip_ws r = c # r' \<Longrightarrow> length r' < Suc (length r)"
  using skip_ws_le [of r] by simp

lemma parse_shorter:
  "parse_value d s = Some (v, r) \<Longrightarrow> length r < length s"
  "parse_elems d s = Some (vs, r) \<Longrightarrow> length r < length s"
  "parse_members d s = Some (ms, r) \<Longrightarrow> length r < length s"
proof (induction d s and d s and d s arbitrary: v r and vs r and ms r
    rule: parse_value_parse_elems_parse_members.induct)
  case (1 d s)
  show ?case
    using "1.prems" "1.IH"
    by (subst (asm) parse_value.simps)
      (auto split: list.splits if_splits option.splits
        dest: scan_string_shorter scan_number_shorter strip_prefix_shorter [rotated]
          skip_ws_Cons_shorter skip_ws_Cons_shorter'
        intro: lt_skip_ws)
next
  case (2 d s)
  show ?case
    using "2.prems" "2.IH"
    apply (subst (asm) parse_elems.simps)
    apply (auto split: list.splits if_splits option.splits)
     apply (drule skip_ws_Cons_shorter, simp)
    apply (metis less_trans)
    done
next
  case (3 d s)
  show ?case
    using "3.prems" "3.IH"
    apply (subst (asm) parse_members.simps)
    apply (auto split: list.splits if_splits option.splits)
     apply (metis less_trans skip_ws_Cons_shorter)
    apply (metis less_trans)
    done
qed


lemma parse_elems_unfold:
  "parse_elems d s =
     (case parse_value d s of
        None \<Rightarrow> None
      | Some (v, r) \<Rightarrow>
          (case skip_ws r of
             [] \<Rightarrow> None
           | c # r' \<Rightarrow>
               if c = CHR '']'' then Some ([v], r')
               else if c = CHR '','' then
                 (case parse_elems d (skip_ws r') of
                    None \<Rightarrow> None
                  | Some (vs, rest) \<Rightarrow> Some (v # vs, rest))
               else None))"
proof (cases "parse_value d s")
  case None
  then show ?thesis by (subst parse_elems.simps) simp
next
  case (Some p)
  obtain v r where p: "p = (v, r)" by (cases p)
  show ?thesis
  proof (cases "skip_ws r")
    case Nil
    then show ?thesis using Some p by (subst parse_elems.simps) simp
  next
    case (Cons c r')
    have "length (skip_ws r') < length s"
      using parse_shorter(1) [of d s v r] Some p skip_ws_Cons_shorter [OF Cons]
        skip_ws_le [of r']
      by simp
    then show ?thesis using Some p Cons by (subst parse_elems.simps) simp
  qed
qed


lemma parse_members_unfold:
  "parse_members d s =
     (case s of
        [] \<Rightarrow> None
      | c # cs \<Rightarrow>
          if c = dquote then
            (case scan_string cs of
               None \<Rightarrow> None
             | Some (k, r) \<Rightarrow>
                 (case skip_ws r of
                    [] \<Rightarrow> None
                  | c1 # r1 \<Rightarrow>
                      if c1 = CHR '':'' then
                        (case parse_value d (skip_ws r1) of
                           None \<Rightarrow> None
                         | Some (v, r2) \<Rightarrow>
                             (case skip_ws r2 of
                                [] \<Rightarrow> None
                              | c2 # r3 \<Rightarrow>
                                  if c2 = CHR ''}'' then Some ([(k, v)], r3)
                                  else if c2 = CHR '','' then
                                    (case parse_members d (skip_ws r3) of
                                       None \<Rightarrow> None
                                     | Some (ms, rest) \<Rightarrow> Some ((k, v) # ms, rest))
                                  else None))
                      else None))
          else None)"
proof (cases s)
  case Nil
  then show ?thesis by (subst parse_members.simps) simp
next
  case (Cons c cs)
  show ?thesis
  proof (cases "scan_string cs")
    case None
    then show ?thesis using Cons by (subst parse_members.simps) simp
  next
    case (Some p)
    obtain k r where p: "p = (k, r)" by (cases p)
    show ?thesis
    proof (cases "skip_ws r")
      case Nil
      then show ?thesis using Cons Some p by (subst parse_members.simps) simp
    next
      case c1: (Cons c1 r1)
      have g1: "length (skip_ws r1) < length s"
        using scan_string_shorter [of cs k r] Some p skip_ws_Cons_shorter [OF c1]
          skip_ws_le [of r1] Cons
        by simp
      show ?thesis
      proof (cases "parse_value d (skip_ws r1)")
        case None
        then show ?thesis using Cons Some p c1 g1 by (subst parse_members.simps) simp
      next
        case v: (Some q)
        obtain v r2 where q: "q = (v, r2)" by (cases q)
        show ?thesis
        proof (cases "skip_ws r2")
          case Nil
          then show ?thesis using Cons Some p c1 g1 v q by (subst parse_members.simps) simp
        next
          case c2: (Cons c2 r3)
          have g2: "length (skip_ws r3) < length s"
            using g1 parse_shorter(1) [of d "skip_ws r1" v r2] v q
              skip_ws_Cons_shorter [OF c2] skip_ws_le [of r3]
            by simp
          show ?thesis
            using Cons Some p c1 g1 v q c2 g2 by (subst parse_members.simps) simp
        qed
      qed
    qed
  qed
qed

subsection \<open>The properties C1 to C10\<close>

text \<open>
  C1: \<^verbatim>\<open>Is\<close> returns false as soon as one of the two errors is nil (also when both
  are); on two \<^verbatim>\<open>*Error\<close> values (live cells \<open>a\<close> and \<open>b\<close> of the heap) it returns
  whether their identities are equal, whatever their codes, details and statuses are; and
  \<^verbatim>\<open>Is(NotFound(x...), NotFound(y...))\<close> is true for all arguments, so for \<open>"a"\<close> and
  \<open>"b"\<close>.
\<close>

theorem C1_Is_identity_only:
  assumes "a < length h" and "b < length h"
  shows "Is h Nil t = Some False \<and> Is h e Nil = Some False \<and> Is h Nil Nil = Some False \<and>
         Is h (ErrorPtr (Some a)) (ErrorPtr (Some b)) = Some (Id_fld (h ! a) = Id_fld (h ! b)) \<and>
         (case NotFound h x of (h1, e1) \<Rightarrow>
            case NotFound h1 y of (h2, e2) \<Rightarrow> Is h2 e1 e2) = Some True \<and>
         (case NotFound h [IString ''a''] of (h1, e1) \<Rightarrow>
            case NotFound h1 [IString ''b''] of (h2, e2) \<Rightarrow> Is h2 e1 e2) = Some True"
  using assms by (auto simp: Is_def deref_def NotFound_def alloc_def nth_append)

text \<open>
  Two errors with one identity that differ in everything else are equal for \<^verbatim>\<open>Is\<close>.
\<close>

theorem C1_Is_identity_only_witness:
  "Is [\<lparr>Id_fld = ''X'', Code = 1, Detail = ''a'', Status = ''s''\<rparr>,
       \<lparr>Id_fld = ''X'', Code = 2, Detail = ''b'', Status = ''t''\<rparr>]
      (ErrorPtr (Some 0)) (ErrorPtr (Some 1)) = Some True"
  using C1_Is_identity_only
    [of 0 "[\<lparr>Id_fld = ''X'', Code = 1, Detail = ''a'', Status = ''s''\<rparr>,
            \<lparr>Id_fld = ''X'', Code = 2, Detail = ''b'', Status = ''t''\<rparr>]" 1]
  by simp

text \<open>
  C2, as the code has it: when the identity and the detail are well-formed UTF-8, \<^verbatim>\<open>Parse\<close>
  applied to the text form (the method \<^verbatim>\<open>Error()\<close>) of \<^verbatim>\<open>New(i, d, c)\<close> allocates an Error
  whose identity, code, detail and status are those of \<^verbatim>\<open>New(i, d, c)\<close>, for every code
  \<open>c\<close>: both cells are the record with the fields \<open>i\<close>, \<open>c\<close>, \<open>d\<close> and the status text
  of \<open>c\<close>.
\<close>

theorem C2_round_trip_valid_utf8:
  assumes "ValidString i" and "ValidString d"
  shows "(case New h i d c of
            (h1, e) \<Rightarrow>
              (case e of
                 ErrorPtr p \<Rightarrow>
                   (case Error_method h1 e of
                      None \<Rightarrow> None
                    | Some text \<Rightarrow>
                        (case Parse h1 text of (h2, q) \<Rightarrow> Some (deref h1 p, h2 ! q)))
               | _ \<Rightarrow> None))
         = Some (Some \<lparr>Id_fld = i, Code = c, Detail = d, Status = StatusText (sint c)\<rparr>,
                 \<lparr>Id_fld = i, Code = c, Detail = d, Status = StatusText (sint c)\<rparr>)"
proof -
  let ?e = "\<lparr>Id_fld = i, Code = c, Detail = d, Status = StatusText (sint c)\<rparr>"
  have "Parse (h @ [?e]) (Marshal ?e) = ((h @ [?e]) @ [?e], length (h @ [?e]))"
    by (rule Parse_Marshal) (simp_all add: assms ValidString_StatusText)
  then show ?thesis
    by (simp add: New_def alloc_def Error_method_def deref_def nth_append)
qed

text \<open>The round trip of \<^verbatim>\<open>New("404", "a<b", 404)\<close>, whose detail is written with an escape.\<close>

theorem C2_round_trip_valid_utf8_witness:
  "ValidString ''404'' \<and> ValidString ''a<b'' \<and>
   (case New [] ''404'' ''a<b'' 404 of
            (h1, e) \<Rightarrow>
              (case e of
                 ErrorPtr p \<Rightarrow>
                   (case Error_method h1 e of
                      None \<Rightarrow> None
                    | Some text \<Rightarrow>
                        (case Parse h1 text of (h2, q) \<Rightarrow> Some (deref h1 p, h2 ! q)))
               | _ \<Rightarrow> None))
         = Some (Some \<lparr>Id_fld = ''404'', Code = 404, Detail = ''a<b'', Status = ''Not Found''\<rparr>,
                 \<lparr>Id_fld = ''404'', Code = 404, Detail = ''a<b'', Status = ''Not Found''\<rparr>)"
proof -
  have v: "ValidString ''404''" "ValidString ''a<b''"
    by (simp_all add: ascii_ValidString)
  have s: "StatusText (sint (404 :: int32)) = ''Not Found''"
    by (simp add: StatusText_def status_table_def)
  show ?thesis
    using C2_round_trip_valid_utf8 [OF v, of "[]" 404] v by (simp only: s simp_thms)
qed

text \<open>
  C2 as stated, for every detail string, fails: \<^verbatim>\<open>json.Marshal\<close> writes a
  byte that is no UTF-8 as the escape of U+FFFD, so the detail \<^verbatim>\<open>"\xff"\<close> (one byte) of
  \<^verbatim>\<open>New("", "\xff", 0)\<close> comes back from \<^verbatim>\<open>Parse\<close> as the three bytes of U+FFFD.
\<close>

theorem C2_round_trip_fails_invalid_utf8:
  "(case New [] [] [CHR 0xFF] 0 of
      (h1, e) \<Rightarrow>
        (case Error_method h1 e of
           None \<Rightarrow> None
         | Some text \<Rightarrow> (case Parse h1 text of (h2, p) \<Rightarrow> Some (Detail (h2 ! p)))))
   = Some [CHR 0xEF, CHR 0xBF, CHR 0xBD]"
  by (simp add: New_def alloc_def Error_method_def Parse_def Unmarshal_Marshal_members
      appendString_loop_FF unquote_ufffd StatusText_0 unquote_names find_field_names
      decode_field_def decode_string_def decode_int32_FormatInt [of 0, simplified]
      zero_Error_def unquote_def [of "[]"])

text \<open>
  C3, as the code has it: for every input that \<^verbatim>\<open>json.Unmarshal\<close> returns an error on,
  \<^verbatim>\<open>Parse\<close> returns a new Error whose detail is the input; when moreover the input is not
  a JSON object (so when it is not JSON at all), the identity, the code and the status
  of that Error are the zero values; and \<^verbatim>\<open>Parse("not valid json")\<close> has the detail
  \<open>not valid json\<close>, the code 0 and an empty identity and status.
\<close>

theorem C3_Parse_decode_failure:
  "(snd (Unmarshal inp zero_Error) \<longrightarrow>
      (case Parse h inp of (h', p) \<Rightarrow> p = length h \<and> length h' = Suc (length h) \<and>
         Detail (h' ! p) = inp)) \<and>
   (snd (Unmarshal inp zero_Error) \<and> (\<forall>ms. parse_document inp \<noteq> Some (JObject ms)) \<longrightarrow>
      Parse h inp = (h @ [\<lparr>Id_fld = [], Code = 0, Detail = inp, Status = []\<rparr>], length h)) \<and>
   Parse h ''not valid json'' =
     (h @ [\<lparr>Id_fld = [], Code = 0, Detail = ''not valid json'', Status = []\<rparr>], length h)"
proof (intro conjI impI)
  assume f: "snd (Unmarshal inp zero_Error)"
  show "case Parse h inp of (h', p) \<Rightarrow> p = length h \<and> length h' = Suc (length h) \<and>
          Detail (h' ! p) = inp"
    by (simp add: Parse_fail [OF f])
next
  assume a: "snd (Unmarshal inp zero_Error) \<and> (\<forall>ms. parse_document inp \<noteq> Some (JObject ms))"
  then show "Parse h inp = (h @ [\<lparr>Id_fld = [], Code = 0, Detail = inp, Status = []\<rparr>], length h)"
    using Parse_fail [of inp h] Unmarshal_not_object [of inp zero_Error]
    by (simp add: zero_Error_def)
next
  have "Unmarshal ''not valid json'' zero_Error = (zero_Error, True)"
    by (simp add: Unmarshal_def parse_document_not_valid_json)
  then show "Parse h ''not valid json'' =
     (h @ [\<lparr>Id_fld = [], Code = 0, Detail = ''not valid json'', Status = []\<rparr>], length h)"
    using Parse_fail [of "''not valid json''" h] by (simp add: zero_Error_def)
qed

text \<open>
  Two inputs that fail to decode: the array \<^verbatim>\<open>[1]\<close>, well-formed but no object, and an
  object whose code is a string.
\<close>

theorem C3_Parse_decode_failure_witness:
  \<open>snd (Unmarshal ''[1]'' zero_Error) \<and>
   (\<forall>ms. parse_document ''[1]'' \<noteq> Some (JObject ms)) \<and>
   Parse [] ''[1]'' = ([\<lparr>Id_fld = [], Code = 0, Detail = ''[1]'', Status = []\<rparr>], 0) \<and>
   snd (Unmarshal ''{"id":"x","code":"a"}'' zero_Error) \<and>
   (case Parse [] ''{"id":"x","code":"a"}'' of
      (h', p) \<Rightarrow> p = 0 \<and> length h' = 1 \<and> Detail (h' ! p) = ''{"id":"x","code":"a"}'')\<close>
proof -
  have a: "snd (Unmarshal ''[1]'' zero_Error)" by (simp add: Unmarshal_array)
  have b: "\<forall>ms. parse_document ''[1]'' \<noteq> Some (JObject ms)"
    by (simp add: parse_document_array)
  have c: \<open>snd (Unmarshal ''{"id":"x","code":"a"}'' zero_Error)\<close>
    by (simp add: Unmarshal_mismatch)
  show ?thesis
    using C3_Parse_decode_failure [of "''[1]''" "[]"] C3_Parse_decode_failure [of \<open>''{"id":"x","code":"a"}''\<close> "[]"] a b c
    by simp
qed

text \<open>
  C3 as stated fails: the object \<^verbatim>\<open>{"id":"x","code":"a"}\<close> does not decode
  (its code is a string, an \<^verbatim>\<open>UnmarshalTypeError\<close>), and \<^verbatim>\<open>json.Unmarshal\<close> has stored
  its identity by then: the Error that \<^verbatim>\<open>Parse\<close> returns has the identity \<open>x\<close>, not the
  empty string.
\<close>

theorem C3_partial_decode_keeps_fields:
  \<open>snd (Unmarshal ''{"id":"x","code":"a"}'' zero_Error) \<and>
   Parse [] ''{"id":"x","code":"a"}'' =
     ([\<lparr>Id_fld = ''x'', Code = 0, Detail = ''{"id":"x","code":"a"}'', Status = []\<rparr>], 0)\<close>
  by (simp add: Parse_def alloc_def Unmarshal_mismatch)

text \<open>
  C4: for a live \<^verbatim>\<open>*Error\<close> at address \<open>a\<close>, \<^verbatim>\<open>Wrap\<close> allocates a new cell (its address
  \<open>length h\<close> is not \<open>a\<close>) with the identity, code and status of the original and the
  detail \<open>m\<close>, \<open>": "\<close>, original detail; \<^verbatim>\<open>WithDetail\<close> allocates a new cell with the
  identity, code and status of the original and the detail \<open>d\<close>; and in both resulting
  heaps the cell \<open>a\<close> is what it was.
\<close>

theorem C4_Wrap_WithDetail:
  assumes "a < length h"
  shows "Wrap h (ErrorPtr (Some a)) m =
           Some (h @ [\<lparr>Id_fld = Id_fld (h ! a), Code = Code (h ! a),
                        Detail = m @ '': '' @ Detail (h ! a), Status = Status (h ! a)\<rparr>],
                 ErrorPtr (Some (length h))) \<and>
         WithDetail h (ErrorPtr (Some a)) d =
           Some (h @ [\<lparr>Id_fld = Id_fld (h ! a), Code = Code (h ! a),
                        Detail = d, Status = Status (h ! a)\<rparr>],
                 ErrorPtr (Some (length h))) \<and>
         length h \<noteq> a \<and>
         (case Wrap h (ErrorPtr (Some a)) m of None \<Rightarrow> False
          | Some (h', r) \<Rightarrow> h' ! a = h ! a \<and> take (length h) h' = h) \<and>
         (case WithDetail h (ErrorPtr (Some a)) d of None \<Rightarrow> False
          | Some (h', r) \<Rightarrow> h' ! a = h ! a \<and> take (length h) h' = h)"
  using assms
  by (simp add: Wrap_def WithDetail_def deref_def alloc_def Sprintf_def printArg_def
      extra_def nth_append)

text \<open>The example of the specification: wrapping \<^verbatim>\<open>NotFound("orig")\<close>.\<close>

theorem C4_Wrap_WithDetail_witness:
  "Wrap [\<lparr>Id_fld = ''404'', Code = 404, Detail = ''orig'', Status = ''Not Found''\<rparr>]
        (ErrorPtr (Some 0)) ''lookup failed'' =
     Some ([\<lparr>Id_fld = ''404'', Code = 404, Detail = ''orig'', Status = ''Not Found''\<rparr>,
            \<lparr>Id_fld = ''404'', Code = 404, Detail = ''lookup failed: orig'',
             Status = ''Not Found''\<rparr>], ErrorPtr (Some 1)) \<and>
   WithDetail [\<lparr>Id_fld = ''404'', Code = 404, Detail = ''orig'', Status = ''Not Found''\<rparr>]
        (ErrorPtr (Some 0)) ''new detail'' =
     Some ([\<lparr>Id_fld = ''404'', Code = 404, Detail = ''orig'', Status = ''Not Found''\<rparr>,
            \<lparr>Id_fld = ''404'', Code = 404, Detail = ''new detail'',
             Status = ''Not Found''\<rparr>], ErrorPtr (Some 1))"
  using C4_Wrap_WithDetail
    [of 0 "[\<lparr>Id_fld = ''404'', Code = 404, Detail = ''orig'', Status = ''Not Found''\<rparr>]"
        "''lookup failed''" "''new detail''"]
  by simp

text \<open>
  C5 fails on the code. The constructors format their arguments with
  \<^verbatim>\<open>fmt.Sprintf("%s", a...)\<close>, whose format has one verb: \<^verbatim>\<open>NotFound("a", "b")\<close> has the
  detail \<^verbatim>\<open>a%!(EXTRA string=b)\<close> and not \<^verbatim>\<open>ab\<close>, \<^verbatim>\<open>NotFound()\<close> has the detail
  \<^verbatim>\<open>%!s(MISSING)\<close> and not the empty string, and \<^verbatim>\<open>NotFound(5)\<close> has the detail
  \<^verbatim>\<open>%!s(int=5)\<close> and not \<^verbatim>\<open>5\<close>. Only a single string (or error) argument is printed as
  it is.
\<close>

theorem C5_constructor_detail_not_concatenation:
  "Detail (last (fst (NotFound [] [IString ''a'', IString ''b'']))) = ''a%!(EXTRA string=b)'' \<and>
   Detail (last (fst (BadRequest [] [IString ''a'', IString ''b'']))) = ''a%!(EXTRA string=b)'' \<and>
   Detail (last (fst (NotFound [] []))) = ''%!s(MISSING)'' \<and>
   Detail (last (fst (NotFound [] [IInt 5]))) = ''%!s(int=5)'' \<and>
   Detail (last (fst (NotFound h [IString s]))) = s"
  by (simp add: NotFound_def BadRequest_def alloc_def Sprintf_def printArg_def extra_def
      type_name_def print_v_def badVerb_def FormatInt_def nat_digits.simps digit_char_def
      char_of_eq_iff)

text \<open>
  C6, as the code has it. On a live \<^verbatim>\<open>*Error\<close>, \<^verbatim>\<open>IsBadRequest\<close> is true exactly when
  \<open>400 \<le> code < 500\<close> and \<^verbatim>\<open>IsServerError\<close> exactly when \<open>500 \<le> code < 600\<close> (the code
  read as a signed number); on nil and on an error of another type both are false. So,
  whatever the arguments and the heap, \<^verbatim>\<open>IsBadRequest(BadRequest(...))\<close> is true,
  \<^verbatim>\<open>IsBadRequest(NotFound(...))\<close> is true as well (404 lies in the range),
  \<^verbatim>\<open>IsBadRequest(InternalServerError(...))\<close> is false and
  \<^verbatim>\<open>IsServerError(InternalServerError(...))\<close> is true.
\<close>

theorem C6_range_predicates:
  assumes "a < length h"
  shows "IsBadRequest h (ErrorPtr (Some a)) =
           Some (400 \<le> sint (Code (h ! a)) \<and> sint (Code (h ! a)) < 500) \<and>
         IsServerError h (ErrorPtr (Some a)) =
           Some (500 \<le> sint (Code (h ! a)) \<and> sint (Code (h ! a)) < 600) \<and>
         IsBadRequest h Nil = Some False \<and> IsBadRequest h (Other t s) = Some False \<and>
         IsServerError h Nil = Some False \<and> IsServerError h (Other t s) = Some False \<and>
         (case BadRequest h x of (h', e) \<Rightarrow> IsBadRequest h' e) = Some True \<and>
         (case NotFound h x of (h', e) \<Rightarrow> IsBadRequest h' e) = Some True \<and>
         (case InternalServerError h x of (h', e) \<Rightarrow> IsBadRequest h' e) = Some False \<and>
         (case InternalServerError h x of (h', e) \<Rightarrow> IsServerError h' e) = Some True"
  using assms
  by (simp add: IsBadRequest_def IsServerError_def BadRequest_def NotFound_def
      InternalServerError_def alloc_def deref_def word_sle_eq word_sless_alt)

text \<open>
  At the borders of the ranges: 499 is a bad request, 600 is no server error, 399 and
  the negative code -100 are no bad requests.
\<close>

theorem C6_range_predicates_witness:
  "IsBadRequest [\<lparr>Id_fld = ''a'', Code = 499, Detail = [], Status = []\<rparr>,
                 \<lparr>Id_fld = ''b'', Code = 600, Detail = [], Status = []\<rparr>,
                 \<lparr>Id_fld = ''c'', Code = 399, Detail = [], Status = []\<rparr>,
                 \<lparr>Id_fld = ''d'', Code = - 100, Detail = [], Status = []\<rparr>]
      (ErrorPtr (Some 0)) = Some True \<and>
   IsServerError [\<lparr>Id_fld = ''a'', Code = 499, Detail = [], Status = []\<rparr>,
                 \<lparr>Id_fld = ''b'', Code = 600, Detail = [], Status = []\<rparr>,
                 \<lparr>Id_fld = ''c'', Code = 399, Detail = [], Status = []\<rparr>,
                 \<lparr>Id_fld = ''d'', Code = - 100, Detail = [], Status = []\<rparr>]
      (ErrorPtr (Some 1)) = Some False \<and>
   IsBadRequest [\<lparr>Id_fld = ''a'', Code = 499, Detail = [], Status = []\<rparr>,
                 \<lparr>Id_fld = ''b'', Code = 600, Detail = [], Status = []\<rparr>,
                 \<lparr>Id_fld = ''c'', Code = 399, Detail = [], Status = []\<rparr>,
                 \<lparr>Id_fld = ''d'', Code = - 100, Detail = [], Status = []\<rparr>]
      (ErrorPtr (Some 2)) = Some False \<and>
   IsBadRequest [\<lparr>Id_fld = ''a'', Code = 499, Detail = [], Status = []\<rparr>,
                 \<lparr>Id_fld = ''b'', Code = 600, Detail = [], Status = []\<rparr>,
                 \<lparr>Id_fld = ''c'', Code = 399, Detail = [], Status = []\<rparr>,
                 \<lparr>Id_fld = ''d'', Code = - 100, Detail = [], Status = []\<rparr>]
      (ErrorPtr (Some 3)) = Some False"
  using C6_range_predicates
      [of 0 "[\<lparr>Id_fld = ''a'', Code = 499, Detail = [], Status = []\<rparr>,
              \<lparr>Id_fld = ''b'', Code = 600, Detail = [], Status = []\<rparr>,
              \<lparr>Id_fld = ''c'', Code = 399, Detail = [], Status = []\<rparr>,
              \<lparr>Id_fld = ''d'', Code = - 100, Detail = [], Status = []\<rparr>]"]
    C6_range_predicates
      [of 1 "[\<lparr>Id_fld = ''a'', Code = 499, Detail = [], Status = []\<rparr>,
              \<lparr>Id_fld = ''b'', Code = 600, Detail = [], Status = []\<rparr>,
              \<lparr>Id_fld = ''c'', Code = 399, Detail = [], Status = []\<rparr>,
              \<lparr>Id_fld = ''d'', Code = - 100, Detail = [], Status = []\<rparr>]"]
    C6_range_predicates
      [of 2 "[\<lparr>Id_fld = ''a'', Code = 499, Detail = [], Status = []\<rparr>,
              \<lparr>Id_fld = ''b'', Code = 600, Detail = [], Status = []\<rparr>,
              \<lparr>Id_fld = ''c'', Code = 399, Detail = [], Status = []\<rparr>,
              \<lparr>Id_fld = ''d'', Code = - 100, Detail = [], Status = []\<rparr>]"]
    C6_range_predicates
      [of 3 "[\<lparr>Id_fld = ''a'', Code = 499, Detail = [], Status = []\<rparr>,
              \<lparr>Id_fld = ''b'', Code = 600, Detail = [], Status = []\<rparr>,
              \<lparr>Id_fld = ''c'', Code = 399, Detail = [], Status = []\<rparr>,
              \<lparr>Id_fld = ''d'', Code = - 100, Detail = [], Status = []\<rparr>]"]
  by simp

text \<open>
  C6 as stated fails: \<^verbatim>\<open>IsBadRequest(NotFound("x"))\<close> is true, not false.
\<close>

theorem C6_IsBadRequest_NotFound_true:
  "IsBadRequest (fst (NotFound [] [IString ''x''])) (snd (NotFound [] [IString ''x'']))
   = Some True"
  by (simp add: IsBadRequest_def NotFound_def alloc_def deref_def)

text \<open>
  C7: while the sentinel variables hold the live \<^verbatim>\<open>*Error\<close> pointers they are initialised
  with, \<^verbatim>\<open>IsNotFound\<close> is true on every error that \<^verbatim>\<open>NotFound\<close> builds and
  \<^verbatim>\<open>IsAlreadyExists\<close> is true on every error that \<^verbatim>\<open>Conflict\<close> builds, whatever the
  arguments are (and whatever the sentinels' cells contain).
\<close>

theorem C7_IsNotFound_IsAlreadyExists:
  assumes "ErrCollateralNotFound g = ErrorPtr (Some s)" and "s < length h"
    and "ErrCollateralExists g = ErrorPtr (Some s')" and "s' < length h"
  shows "(case NotFound h a of (h', e) \<Rightarrow> IsNotFound h' g e) = Some True \<and>
         (case Conflict h a of (h', e) \<Rightarrow> IsAlreadyExists h' g e) = Some True"
  using assms
  by (auto simp: IsNotFound_def IsAlreadyExists_def Is_def deref_def NotFound_def
      Conflict_def alloc_def nth_append split: bool.splits)

text \<open>Right after the package is loaded, with the detail \<open>"x"\<close>.\<close>

theorem C7_IsNotFound_IsAlreadyExists_witness:
  "(case NotFound (fst init_package) [IString ''x''] of
      (h', e) \<Rightarrow> IsNotFound h' (snd init_package) e) = Some True \<and>
   (case Conflict (fst init_package) [IString ''x''] of
      (h', e) \<Rightarrow> IsAlreadyExists h' (snd init_package) e) = Some True"
  using C7_IsNotFound_IsAlreadyExists
    [of "snd init_package" 0 "fst init_package" 1 "[IString ''x'']"]
  by (simp add: init_package_def NotFound_def Conflict_def BadRequest_def
      ServiceUnavailable_def InternalServerError_def alloc_def)

text \<open>
  C8: \<^verbatim>\<open>NewBuilder().WithID("X").WithCode(418).WithDetail("teapot").Build()\<close> allocates an
  Error with identity \<open>X\<close>, code 418, detail \<open>teapot\<close> and the table's text for 418, which
  is \<open>I'm a teapot\<close>; and for every builder, \<^verbatim>\<open>Build\<close> is \<^verbatim>\<open>New\<close> on the builder's
  current fields, so that the status is the table's text for the code the builder holds
  when \<^verbatim>\<open>Build\<close> is called.
\<close>

theorem C8_builder:
  "Build h (b_WithDetail (WithCode (WithID NewBuilder ''X'') 418) ''teapot'') =
     (h @ [\<lparr>Id_fld = ''X'', Code = 418, Detail = ''teapot'',
            Status = ''I'' @ [CHR 0x27] @ ''m a teapot''\<rparr>], ErrorPtr (Some (length h))) \<and>
   Build h b = New h (b_id b) (b_detail b) (b_code b) \<and>
   Build h (WithCode b c) =
     (h @ [\<lparr>Id_fld = b_id b, Code = c, Detail = b_detail b,
            Status = StatusText (sint c)\<rparr>], ErrorPtr (Some (length h)))"
  by (simp add: Build_def b_WithDetail_def WithCode_def WithID_def NewBuilder_def New_def
      alloc_def StatusText_418)

text \<open>
  C9: \<^verbatim>\<open>Is\<close> is symmetric on all errors: nil, \<^verbatim>\<open>*Error\<close> (the nil pointer too, on which
  both orders panic or both compare the same texts) and errors of other types.
\<close>

theorem C9_Is_symmetric: "Is h a b = Is h b a"
  by (cases a; cases b) (auto simp: Is_def split: option.splits)

text \<open>
  C10: on the nil error, \<^verbatim>\<open>GetHTTPStatus\<close> returns 500 and \<^verbatim>\<open>GetErrorID\<close> returns
  \<open>UNKNOWN_ERROR\<close>, without a panic, and these are the results for every error that is
  not a \<^verbatim>\<open>*Error\<close>.
\<close>

theorem C10_nil_fallbacks:
  "GetHTTPStatus h Nil = Some 500 \<and> GetErrorID h Nil = Some ''UNKNOWN_ERROR'' \<and>
   GetHTTPStatus h (Other t s) = GetHTTPStatus h Nil \<and>
   GetErrorID h (Other t s) = GetErrorID h Nil"
  by (simp add: GetHTTPStatus_def GetErrorID_def)

end
